theory Spec2Isabelle
  imports Main "HOL-Library.AList"
begin

section \<open>Paths\<close>

text \<open>
  A \<^verbatim>\<open>pathlib.Path\<close> is the list of its parts, as \<^verbatim>\<open>Path.parts\<close> has it: an absolute path
  starts with the part \<^verbatim>\<open>/\<close> (or \<^verbatim>\<open>//\<close>, which \<^verbatim>\<open>pathlib\<close> keeps for exactly two leading
  slashes).  A string is the byte string that reaches the kernel.

  \<open>Path s\<close> parses a string as \<^verbatim>\<open>pathlib\<close> does: the string is split at every \<^verbatim>\<open>/\<close>, empty
  parts and \<^verbatim>\<open>.\<close> are dropped, \<^verbatim>\<open>..\<close> is kept.
\<close>

type_synonym path = "string list"

fun split_sep :: "string \<Rightarrow> string list" where
  "split_sep [] = [[]]"
| "split_sep (c # cs) =
     (if c = CHR ''/'' then [] # split_sep cs
      else case split_sep cs of [] \<Rightarrow> [[c]] | x # xs \<Rightarrow> (c # x) # xs)"

definition root_of :: "string \<Rightarrow> path" where
  "root_of s =
     (let k = length (takeWhile (\<lambda>c. c = CHR ''/'') s)
      in if k = 0 then [] else if k = 2 then [''//''] else [''/''])"

definition Path :: "string \<Rightarrow> path" where
  "Path s = root_of s @ filter (\<lambda>x. x \<noteq> [] \<and> x \<noteq> ''.'') (split_sep s)"

definition is_absolute :: "path \<Rightarrow> bool" where
  "is_absolute p = (case p of [] \<Rightarrow> False | a # _ \<Rightarrow> a = ''/'' \<or> a = ''//'')"

text \<open>\<^verbatim>\<open>p / s\<close> for a string \<open>s\<close>: an absolute \<open>s\<close> replaces \<open>p\<close>.\<close>

definition joinpath :: "path \<Rightarrow> string \<Rightarrow> path" where
  "joinpath p s = (let q = Path s in if is_absolute q then q else p @ q)"

text \<open>The names the kernel walks through: the parts after the root.\<close>

definition comps :: "path \<Rightarrow> string list" where
  "comps p = (if is_absolute p then tl p else p)"

fun join_parts :: "string list \<Rightarrow> string" where
  "join_parts [] = []"
| "join_parts [a] = a"
| "join_parts (a # b # r) = a @ ''/'' @ join_parts (b # r)"

text \<open>\<^verbatim>\<open>str(path)\<close>, which the f-strings, the log calls and the system calls apply to a path.\<close>

definition path_str :: "path \<Rightarrow> string" where
  "path_str p =
     (if is_absolute p then hd p @ join_parts (tl p)
      else if p = [] then ''.'' else join_parts p)"

section \<open>Python exceptions\<close>

text \<open>
  Every error of the tool is a \<^verbatim>\<open>ValueError\<close> told apart by its message.  \<open>OSError\<close> stands
  for the subclasses the \<^verbatim>\<open>os\<close> calls raise (\<^verbatim>\<open>FileExistsError\<close> for \<open>EEXIST\<close>,
  \<^verbatim>\<open>FileNotFoundError\<close> for \<open>ENOENT\<close>, ...), with \<^verbatim>\<open>errno\<close>, \<^verbatim>\<open>filename\<close> and
  \<^verbatim>\<open>filename2\<close>.
\<close>

datatype errno = EEXIST | ENOENT | EISDIR | ENOTDIR | ELOOP | EINVAL | EBADF | ENAMETOOLONG

datatype error =
    ValueError string
  | NotImplementedError
  | AttributeError string
  | KeyError string
  | OSError errno string "string option"

definition not_installed_msg :: "string \<Rightarrow> string" where
  "not_installed_msg nm = nm @ '' is probably not installed!''"

definition actions_not_supported_msg :: "string \<Rightarrow> string" where
  "actions_not_supported_msg nm = ''Actions not supported in '' @ nm @ ''!''"

definition scripts_not_supported_msg :: "string \<Rightarrow> string" where
  "scripts_not_supported_msg nm = ''Scripts not supported in '' @ nm @ ''!''"

definition not_available_msg :: "path \<Rightarrow> string" where
  "not_available_msg p = path_str p @ '' not available!''"

definition already_exists_msg :: "path \<Rightarrow> string" where
  "already_exists_msg p = path_str p @ '' already exists!''"

section \<open>The file system\<close>

text \<open>
  The program reads and changes the file system only through \<^verbatim>\<open>pathlib\<close> and \<^verbatim>\<open>os\<close> calls.
  The file system holds its entries under their locations: a location is the list of names
  from the root directory down to the entry, through directories only (the root is \<open>[]\<close>).
  The entries are kept in directory order, the order in which \<^verbatim>\<open>scandir\<close> lists them.  The
  working directory is a location.  A symbolic link holds its target as the \<^verbatim>\<open>Path\<close> that
  \<^verbatim>\<open>readlink\<close> returns.  Permissions are not modelled: every call is permitted.
\<close>

datatype node = Directory | Regular string | Link path

type_synonym location = "string list"

record filesystem =
  entries :: "(location \<times> node) list"
  cwd :: location

definition symlink_limit :: nat where
  "symlink_limit = 40"

definition NAME_MAX :: nat where
  "NAME_MAX = 255"

definition PATH_MAX :: nat where
  "PATH_MAX = 4096"

datatype mode = Follow | NoFollow

text \<open>
  Path resolution, as the kernel does it: from the location \<open>cur\<close>, a directory, through the
  names \<open>cs\<close>.  \<^verbatim>\<open>..\<close> is the parent directory (the root is its own parent).  A name longer
  than \<open>NAME_MAX\<close> is refused.  Every name but the last must be a directory or a link to one;
  a link is replaced by the names of its target, read from the directory of the link or from
  the root, and at most \<open>symlink_limit\<close> links are followed.  The last name may be missing, a
  file, or (with \<open>NoFollow\<close>) a link that is not followed.  The result is the location
  reached, the entry there (\<open>None\<close>: nothing is there, but its directory is), and the number
  of links that may still be followed.
\<close>

fun walk ::
  "mode \<Rightarrow> nat \<Rightarrow> (location \<times> node) list \<Rightarrow> location \<Rightarrow> string list
     \<Rightarrow> errno + (location \<times> node option \<times> nat)" where
  "walk md n E cur [] = Inr (cur, Some Directory, n)"
| "walk md n E cur (c # cs) =
     (if c = ''..'' then walk md n E (butlast cur) cs
      else if NAME_MAX < length c then Inl ENAMETOOLONG
      else case map_of E (cur @ [c]) of
        None \<Rightarrow> if cs = [] then Inr (cur @ [c], None, n) else Inl ENOENT
      | Some Directory \<Rightarrow> walk md n E (cur @ [c]) cs
      | Some (Regular x) \<Rightarrow>
          if cs = [] then Inr (cur @ [c], Some (Regular x), n) else Inl ENOTDIR
      | Some (Link t) \<Rightarrow>
          if cs = [] \<and> md = NoFollow then Inr (cur @ [c], Some (Link t), n)
          else (case n of
                  0 \<Rightarrow> Inl ELOOP
                | Suc m \<Rightarrow> walk md m E (if is_absolute t then [] else cur) (comps t @ cs)))"

text \<open>
  What Python and the kernel refuse before any lookup: a string with a null byte
  (\<^verbatim>\<open>ValueError\<close>), and a string of \<open>PATH_MAX\<close> bytes or more.
\<close>

definition bad_string :: "string \<Rightarrow> error option" where
  "bad_string s =
     (if CHR 0x00 \<in> set s then Some (ValueError ''embedded null byte'')
      else if PATH_MAX \<le> length s then Some (OSError ENAMETOOLONG s None)
      else None)"

text \<open>A system call resolves the path it is given: the location and the entry there.\<close>

definition locate :: "mode \<Rightarrow> filesystem \<Rightarrow> path \<Rightarrow> error + (location \<times> node option)" where
  "locate md F p =
     (case bad_string (path_str p) of
        Some e \<Rightarrow> Inl e
      | None \<Rightarrow>
          (case walk md symlink_limit (entries F) (if is_absolute p then [] else cwd F) (comps p) of
             Inl e \<Rightarrow> Inl (OSError e (path_str p) None)
           | Inr (q, nd, n) \<Rightarrow> Inr (q, nd)))"

text \<open>\<^verbatim>\<open>os.stat\<close> (links followed) and \<^verbatim>\<open>os.lstat\<close> (the last name not followed).\<close>

definition stat :: "filesystem \<Rightarrow> path \<Rightarrow> error + node" where
  "stat F p =
     (case locate Follow F p of
        Inl e \<Rightarrow> Inl e
      | Inr (q, None) \<Rightarrow> Inl (OSError ENOENT (path_str p) None)
      | Inr (q, Some nd) \<Rightarrow> Inr nd)"

definition lstat :: "filesystem \<Rightarrow> path \<Rightarrow> error + node" where
  "lstat F p =
     (case locate NoFollow F p of
        Inl e \<Rightarrow> Inl e
      | Inr (q, None) \<Rightarrow> Inl (OSError ENOENT (path_str p) None)
      | Inr (q, Some nd) \<Rightarrow> Inr nd)"

text \<open>
  \<^verbatim>\<open>Path.is_dir\<close>, \<^verbatim>\<open>Path.exists\<close> and \<^verbatim>\<open>Path.is_symlink\<close> answer \<^verbatim>\<open>False\<close> where the call
  fails with \<open>ENOENT\<close>, \<open>ENOTDIR\<close>, \<open>EBADF\<close> or \<open>ELOOP\<close> or with a \<^verbatim>\<open>ValueError\<close>; any other
  \<^verbatim>\<open>OSError\<close> is raised again.
\<close>

definition ignored :: "error \<Rightarrow> error + bool" where
  "ignored e =
     (case e of
        OSError k f g \<Rightarrow>
          if k = ENOENT \<or> k = ENOTDIR \<or> k = EBADF \<or> k = ELOOP then Inr False else Inl e
      | ValueError m \<Rightarrow> Inr False
      | _ \<Rightarrow> Inl e)"

definition is_dir :: "filesystem \<Rightarrow> path \<Rightarrow> error + bool" where
  "is_dir F p = (case stat F p of Inl e \<Rightarrow> ignored e | Inr nd \<Rightarrow> Inr (nd = Directory))"

definition exists :: "filesystem \<Rightarrow> path \<Rightarrow> error + bool" where
  "exists F p = (case stat F p of Inl e \<Rightarrow> ignored e | Inr nd \<Rightarrow> Inr True)"

definition is_symlink :: "filesystem \<Rightarrow> path \<Rightarrow> error + bool" where
  "is_symlink F p =
     (case lstat F p of
        Inl e \<Rightarrow> ignored e
      | Inr nd \<Rightarrow> Inr (case nd of Link t \<Rightarrow> True | _ \<Rightarrow> False))"

definition readlink :: "filesystem \<Rightarrow> path \<Rightarrow> error + path" where
  "readlink F p =
     (case lstat F p of
        Inl e \<Rightarrow> Inl e
      | Inr (Link t) \<Rightarrow> Inr t
      | Inr _ \<Rightarrow> Inl (OSError EINVAL (path_str p) None))"

text \<open>
  The entries directly inside the directory at a location, and \<^verbatim>\<open>glob("*")\<close> on a path
  that is a directory: every entry of the directory, its name appended to the path.
\<close>

definition inside :: "location \<Rightarrow> location \<Rightarrow> bool" where
  "inside D q = (q \<noteq> [] \<and> butlast q = D)"

definition listing :: "filesystem \<Rightarrow> location \<Rightarrow> location list" where
  "listing F D = filter (inside D) (map fst (entries F))"

definition children :: "filesystem \<Rightarrow> path \<Rightarrow> path list" where
  "children F d =
     (case locate Follow F d of
        Inr (D, Some Directory) \<Rightarrow> map (\<lambda>q. d @ [last q]) (listing F D)
      | _ \<Rightarrow> [])"

text \<open>
  The calls that change the file system.

  \<^verbatim>\<open>os.mkdir(p)\<close>: nothing may be at the path, and its directory must be there.
\<close>

definition fs_mkdir :: "filesystem \<Rightarrow> path \<Rightarrow> error + filesystem" where
  "fs_mkdir F p =
     (case locate NoFollow F p of
        Inl e \<Rightarrow> Inl e
      | Inr (q, Some nd) \<Rightarrow> Inl (OSError EEXIST (path_str p) None)
      | Inr (q, None) \<Rightarrow> Inr (F\<lparr>entries := AList.update q Directory (entries F)\<rparr>))"

text \<open>
  \<^verbatim>\<open>os.symlink(src, dst)\<close>: fails when any entry, a dangling link included, is at \<open>dst\<close>.  The
  error names both paths.
\<close>

definition fs_symlink :: "filesystem \<Rightarrow> path \<Rightarrow> path \<Rightarrow> error + filesystem" where
  "fs_symlink F src dst =
     (case bad_string (path_str src) of
        Some (OSError k f g) \<Rightarrow> Inl (OSError k (path_str src) (Some (path_str dst)))
      | Some e \<Rightarrow> Inl e
      | None \<Rightarrow>
          (case locate NoFollow F dst of
             Inl (OSError k f g) \<Rightarrow> Inl (OSError k (path_str src) (Some (path_str dst)))
           | Inl e \<Rightarrow> Inl e
           | Inr (q, Some nd) \<Rightarrow> Inl (OSError EEXIST (path_str src) (Some (path_str dst)))
           | Inr (q, None) \<Rightarrow> Inr (F\<lparr>entries := AList.update q (Link src) (entries F)\<rparr>)))"

text \<open>
  \<^verbatim>\<open>os.rename(src, dst)\<close> for a source that is not a directory (the program renames symbolic
  links only): neither path is followed at its last name, an entry at \<open>dst\<close> that is not a
  directory is replaced, and renaming an entry to itself does nothing.  A directory as
  source is refused here.
\<close>

definition fs_rename :: "filesystem \<Rightarrow> path \<Rightarrow> path \<Rightarrow> error + filesystem" where
  "fs_rename F src dst =
     (case locate NoFollow F src of
        Inl (OSError k f g) \<Rightarrow> Inl (OSError k (path_str src) (Some (path_str dst)))
      | Inl e \<Rightarrow> Inl e
      | Inr (qs, None) \<Rightarrow> Inl (OSError ENOENT (path_str src) (Some (path_str dst)))
      | Inr (qs, Some Directory) \<Rightarrow> Inl (OSError EINVAL (path_str src) (Some (path_str dst)))
      | Inr (qs, Some nd) \<Rightarrow>
          (case locate NoFollow F dst of
             Inl (OSError k f g) \<Rightarrow> Inl (OSError k (path_str src) (Some (path_str dst)))
           | Inl e \<Rightarrow> Inl e
           | Inr (qd, Some Directory) \<Rightarrow>
               Inl (OSError EISDIR (path_str src) (Some (path_str dst)))
           | Inr (qd, x) \<Rightarrow>
               if qs = qd then Inr F
               else Inr (F\<lparr>entries := AList.update qd nd (AList.delete qs (entries F))\<rparr>)))"

text \<open>
  \<^verbatim>\<open>open(p, "wt")\<close> follows symbolic links to the file it truncates, or to the place where
  it creates the file.
\<close>

definition open_target :: "filesystem \<Rightarrow> path \<Rightarrow> error + location" where
  "open_target F p =
     (case locate Follow F p of
        Inl e \<Rightarrow> Inl e
      | Inr (q, Some Directory) \<Rightarrow> Inl (OSError EISDIR (path_str p) None)
      | Inr (q, Some (Link t)) \<Rightarrow> Inl (OSError ELOOP (path_str p) None)
      | Inr (q, x) \<Rightarrow> Inr q)"

definition fs_write_text :: "filesystem \<Rightarrow> path \<Rightarrow> string \<Rightarrow> error + filesystem" where
  "fs_write_text F p body =
     (case open_target F p of
        Inl e \<Rightarrow> Inl e
      | Inr q \<Rightarrow> Inr (F\<lparr>entries := AList.update q (Regular body) (entries F)\<rparr>))"

text \<open>
  A file system as the kernel keeps it: no location is stored twice, every entry has a name
  that a directory can hold, and every symbolic link holds a target that \<^verbatim>\<open>symlink\<close> accepted.
\<close>

definition valid_name :: "string \<Rightarrow> bool" where
  "valid_name n =
     (n \<noteq> [] \<and> n \<noteq> ''.'' \<and> n \<noteq> ''..'' \<and> CHR ''/'' \<notin> set n \<and> CHR 0x00 \<notin> set n
      \<and> length n \<le> NAME_MAX)"

definition named :: "location \<Rightarrow> bool" where
  "named q = (q \<noteq> [] \<and> valid_name (last q))"

definition stored :: "node \<Rightarrow> bool" where
  "stored nd = (case nd of Link t \<Rightarrow> bad_string (path_str t) = None | _ \<Rightarrow> True)"

definition wf_fs :: "filesystem \<Rightarrow> bool" where
  "wf_fs F =
     (distinct (map fst (entries F)) \<and> list_all named (map fst (entries F))
      \<and> list_all stored (map snd (entries F)))"

section \<open>The world: file system, log, system calls made\<close>

datatype syscall =
    SYS_stat path
  | SYS_lstat path
  | SYS_scandir path
  | SYS_readlink path
  | SYS_mkdir path
  | SYS_rename path path
  | SYS_symlink path path
  | SYS_open path

datatype level = DEBUG | WARNING

record world =
  fs :: filesystem
  logged :: "(level \<times> string) list"
  calls :: "syscall list"

definition sys :: "syscall \<Rightarrow> world \<Rightarrow> world" where
  "sys c w = w\<lparr>calls := calls w @ [c]\<rparr>"

definition logging :: "level \<Rightarrow> string \<Rightarrow> world \<Rightarrow> world" where
  "logging l m w = w\<lparr>logged := logged w @ [(l, m)]\<rparr>"

definition path_is_dir :: "path \<Rightarrow> world \<Rightarrow> (error + bool) \<times> world" where
  "path_is_dir p w = (is_dir (fs w) p, sys (SYS_stat p) w)"

definition path_exists :: "path \<Rightarrow> world \<Rightarrow> (error + bool) \<times> world" where
  "path_exists p w = (exists (fs w) p, sys (SYS_stat p) w)"

definition path_is_symlink :: "path \<Rightarrow> world \<Rightarrow> (error + bool) \<times> world" where
  "path_is_symlink p w = (is_symlink (fs w) p, sys (SYS_lstat p) w)"

definition path_readlink :: "path \<Rightarrow> world \<Rightarrow> (error + path) \<times> world" where
  "path_readlink p w = (readlink (fs w) p, sys (SYS_readlink p) w)"

text \<open>
  \<^verbatim>\<open>Path.glob("*")\<close> asks \<^verbatim>\<open>is_dir\<close> first and yields nothing for a path that is not a
  directory.
\<close>

definition path_glob :: "path \<Rightarrow> world \<Rightarrow> (error + path list) \<times> world" where
  "path_glob d w =
     (case is_dir (fs w) d of
        Inl e \<Rightarrow> (Inl e, sys (SYS_stat d) w)
      | Inr isd \<Rightarrow>
          if isd then (Inr (children (fs w) d), sys (SYS_scandir d) (sys (SYS_stat d) w))
          else (Inr [], sys (SYS_stat d) w))"

text \<open>
  A call that changes the file system: it is recorded, and the file system changes when it
  succeeds.
\<close>

definition change ::
  "syscall \<Rightarrow> (filesystem \<Rightarrow> error + filesystem) \<Rightarrow> world \<Rightarrow> (error + unit) \<times> world" where
  "change c f w =
     (case f (fs w) of
        Inl e \<Rightarrow> (Inl e, sys c w)
      | Inr F' \<Rightarrow> (Inr (), (sys c w)\<lparr>fs := F'\<rparr>))"

definition path_mkdir :: "path \<Rightarrow> world \<Rightarrow> (error + unit) \<times> world" where
  "path_mkdir p w = change (SYS_mkdir p) (\<lambda>F. fs_mkdir F p) w"

definition os_symlink :: "path \<Rightarrow> path \<Rightarrow> world \<Rightarrow> (error + unit) \<times> world" where
  "os_symlink src dst w = change (SYS_symlink src dst) (\<lambda>F. fs_symlink F src dst) w"

definition os_rename :: "path \<Rightarrow> path \<Rightarrow> world \<Rightarrow> (error + unit) \<times> world" where
  "os_rename src dst w = change (SYS_rename src dst) (\<lambda>F. fs_rename F src dst) w"

definition write_text :: "path \<Rightarrow> string \<Rightarrow> world \<Rightarrow> (error + unit) \<times> world" where
  "write_text p body w = change (SYS_open p) (\<lambda>F. fs_write_text F p body) w"
section \<open>Templates\<close>

text \<open>
  \<^verbatim>\<open>string.Template\<close> finds its placeholders with one regular expression, tried at every
  \<^verbatim>\<open>$\<close> from left to right: \<^verbatim>\<open>$$\<close> (escaped), \<^verbatim>\<open>$identifier\<close> (named),
  \<^verbatim>\<open>${identifier}\<close> (braced), and any other \<^verbatim>\<open>$\<close> (invalid, matching the \<^verbatim>\<open>$\<close> alone).  An
  identifier is \<^verbatim>\<open>[_a-z][_a-z0-9]*\<close>, ASCII, case ignored, and as long as possible.
\<close>

definition idstart :: "char \<Rightarrow> bool" where
  "idstart c = (c \<in> set ''_abcdefghijklmnopqrstuvwxyzABCDEFGHIJKLMNOPQRSTUVWXYZ'')"

definition idchar :: "char \<Rightarrow> bool" where
  "idchar c = (idstart c \<or> c \<in> set ''0123456789'')"

datatype token = Text char | Escaped | Named string | Braced string | Invalid

function tokens :: "string \<Rightarrow> token list" where
  "tokens [] = []"
| "tokens (c # cs) =
     (if c \<noteq> CHR ''$'' then Text c # tokens cs
      else case cs of
        [] \<Rightarrow> [Invalid]
      | d # ds \<Rightarrow>
          if d = CHR ''$'' then Escaped # tokens ds
          else if idstart d then Named (takeWhile idchar cs) # tokens (dropWhile idchar cs)
          else if d = CHR ''{'' \<and> (case ds of [] \<Rightarrow> False | e # _ \<Rightarrow> idstart e)
                \<and> (case dropWhile idchar ds of [] \<Rightarrow> False | e # _ \<Rightarrow> e = CHR ''}'')
          then Braced (takeWhile idchar ds) # tokens (tl (dropWhile idchar ds))
          else Invalid # tokens cs)"
  by pat_completeness auto
termination
proof (relation "measure length")
  show "wf (measure (length :: string \<Rightarrow> nat))" by simp
next
  fix c :: char and cs :: string
  show "(cs, c # cs) \<in> measure length" by simp
next
  fix c d :: char and cs ds :: string
  assume "cs = d # ds"
  then show "(ds, c # cs) \<in> measure length" by simp
next
  fix c :: char and cs :: string
  have "length (dropWhile idchar cs) \<le> length cs" by (rule length_dropWhile_le)
  then show "(dropWhile idchar cs, c # cs) \<in> measure length" by simp
next
  fix c d :: char and cs ds :: string
  assume "cs = d # ds"
  moreover have "length (tl (dropWhile idchar ds)) \<le> length ds"
    using length_dropWhile_le [of idchar ds] by simp
  ultimately show "(tl (dropWhile idchar ds), c # cs) \<in> measure length" by simp
next
  fix c :: char and cs :: string
  show "(cs, c # cs) \<in> measure length" by simp
qed

text \<open>
  The \<^verbatim>\<open>convert\<close> callback of \<^verbatim>\<open>safe_substitute\<close>: a placeholder whose key is missing gives
  back the matched text, an invalid \<^verbatim>\<open>$\<close> stays.  Values are strings, so \<^verbatim>\<open>str\<close> is the
  identity on them.
\<close>

fun convert :: "(string \<rightharpoonup> string) \<Rightarrow> token \<Rightarrow> string" where
  "convert m (Text c) = [c]"
| "convert m Escaped = ''$''"
| "convert m (Named k) = (case m k of Some v \<Rightarrow> v | None \<Rightarrow> ''$'' @ k)"
| "convert m (Braced k) = (case m k of Some v \<Rightarrow> v | None \<Rightarrow> ''${'' @ k @ ''}'')"
| "convert m Invalid = ''$''"

definition safe_substitute :: "string \<Rightarrow> (string \<rightharpoonup> string) \<Rightarrow> string" where
  "safe_substitute template m = concat (map (convert m) (tokens template))"

section \<open>Constants\<close>

definition ACTIONS :: string where
  "ACTIONS = ''actions''"

definition SCRIPTS :: string where
  "SCRIPTS = ''scripts''"

definition NEMO_ACTION_TEMPLATE :: string where
  "NEMO_ACTION_TEMPLATE =
     ''[Nemo Action]\<newline>Name=${name}\<newline>Comment=${comment}\<newline>Exec=${executable} %F\<newline>Selection=S\<newline>Extensions=${extensions};\<newline>Quote=double\<newline>''"

definition KFM_ACTION_TEMPLATE :: string where
  "KFM_ACTION_TEMPLATE =
     ''[Desktop Entry]\<newline>Type=Service\<newline>ServiceTypes=KonqPopupMenu/Plugin\<newline>MimeType=${mimetypes};\<newline>InitialPreference=99\<newline>Actions=${identifier}\<newline>\<newline>[Desktop Action ${identifier}]\<newline>Name=${name}\<newline>Exec=${executable} %F\<newline>''"

section \<open>File manager classes\<close>

datatype fm_class =
  BaseFileManager | Nautilus | Caja | Nemo | KdefileManager | PcManFm | Thunar

text \<open>
  An object: its class, the class attributes it sees, and the two attributes that
  \<^verbatim>\<open>__init__\<close> may set (\<open>None\<close>: the attribute is not defined).
\<close>

record file_manager =
  cls :: fm_class
  name :: string
  config_path :: path
  actions_subdir :: string
  scripts_subdir :: string
  capabilities :: "string list"
  action_template :: string
  executable :: string
  actions_path :: "path option"
  scripts_path :: "path option"

text \<open>The class bodies; a subclass overrides attributes of its base class.\<close>

definition BaseFileManager_class :: file_manager where
  "BaseFileManager_class =
     \<lparr>cls = BaseFileManager,
      name = ''Unknown File Manager'',
      config_path = Path ''.local/share/unknown'',
      actions_subdir = ''actions'',
      scripts_subdir = ''scripts'',
      capabilities = [],
      action_template = [],
      executable = ''/bin/false'',
      actions_path = None,
      scripts_path = None\<rparr>"

definition Nautilus_class :: file_manager where
  "Nautilus_class =
     BaseFileManager_class
       \<lparr>cls := Nautilus,
        name := ''Nautilus'',
        config_path := Path ''.local/share/nautilus'',
        capabilities := [SCRIPTS],
        executable := ''/usr/bin/nautilus''\<rparr>"

definition Caja_class :: file_manager where
  "Caja_class =
     Nautilus_class
       \<lparr>cls := Caja,
        name := ''Caja'',
        config_path := Path ''.local/share/caja'',
        capabilities := [ACTIONS, SCRIPTS]\<rparr>"

definition Nemo_class :: file_manager where
  "Nemo_class =
     Nautilus_class
       \<lparr>cls := Nemo,
        name := ''Nemo'',
        config_path := Path ''.local/share/nemo'',
        capabilities := [ACTIONS, SCRIPTS],
        action_template := NEMO_ACTION_TEMPLATE,
        executable := ''/usr/bin/nemo''\<rparr>"

definition KdefileManager_class :: file_manager where
  "KdefileManager_class =
     BaseFileManager_class
       \<lparr>cls := KdefileManager,
        name := ''KDE file manager'',
        capabilities := [ACTIONS],
        action_template := KFM_ACTION_TEMPLATE\<rparr>"

definition PcManFm_class :: file_manager where
  "PcManFm_class =
     BaseFileManager_class
       \<lparr>cls := PcManFm, name := ''PCManFM'', capabilities := [ACTIONS]\<rparr>"

definition Thunar_class :: file_manager where
  "Thunar_class =
     BaseFileManager_class
       \<lparr>cls := Thunar, name := ''Thunar'', capabilities := [ACTIONS]\<rparr>"

fun class_attributes :: "fm_class \<Rightarrow> file_manager" where
  "class_attributes BaseFileManager = BaseFileManager_class"
| "class_attributes Nautilus = Nautilus_class"
| "class_attributes Caja = Caja_class"
| "class_attributes Nemo = Nemo_class"
| "class_attributes KdefileManager = KdefileManager_class"
| "class_attributes PcManFm = PcManFm_class"
| "class_attributes Thunar = Thunar_class"

text \<open>\<^verbatim>\<open>BaseFileManager.__init__\<close>, which no subclass overrides.\<close>

definition init :: "file_manager \<Rightarrow> file_manager" where
  "init self =
     (let self1 =
            (if ACTIONS \<in> set (capabilities self)
             then self\<lparr>actions_path := Some (joinpath (config_path self) (actions_subdir self))\<rparr>
             else self);
          self2 =
            (if SCRIPTS \<in> set (capabilities self1)
             then self1\<lparr>scripts_path := Some (joinpath (config_path self1) (scripts_subdir self1))\<rparr>
             else self1)
      in self2)"

definition new :: "fm_class \<Rightarrow> file_manager" where
  "new c = init (class_attributes c)"

subsection \<open>is_installed\<close>

text \<open>
  What \<^verbatim>\<open>subprocess.run(argv, check=True)\<close> meets: the child ran and exited with a return
  code, or it could not be started and \<^verbatim>\<open>run\<close> raises an \<^verbatim>\<open>OSError\<close>.  The machine is a
  function from the argument vector to that outcome.  A non-zero return code raises
  \<^verbatim>\<open>CalledProcessError\<close>, the one exception the method catches.
\<close>

datatype process_outcome = Exited int | SpawnFailed errno

definition is_installed ::
  "file_manager \<Rightarrow> (string list \<Rightarrow> process_outcome) \<Rightarrow> error + bool" where
  "is_installed self run =
     (case run [executable self, ''--version''] of
        Exited rc \<Rightarrow> if rc \<noteq> 0 then Inr False else Inr True
      | SpawnFailed e \<Rightarrow> Inl (OSError e (executable self) None))"

subsection \<open>required_keys\<close>

fun token_key :: "token \<Rightarrow> string list" where
  "token_key (Named k) = [k]"
| "token_key (Braced k) = [k]"
| "token_key _ = []"

definition required_keys :: "file_manager \<Rightarrow> string list" where
  "required_keys self = concat (map token_key (tokens (action_template self)))"

subsection \<open>The checks\<close>

definition check_installation :: "file_manager \<Rightarrow> world \<Rightarrow> (error + unit) \<times> world" where
  "check_installation self w =
     (case path_is_dir (config_path self) w of
        (Inl e, w') \<Rightarrow> (Inl e, w')
      | (Inr isd, w') \<Rightarrow>
          if \<not> isd then (Inl (ValueError (not_installed_msg (name self))), w')
          else (Inr (), w'))"

definition check_actions_support :: "file_manager \<Rightarrow> world \<Rightarrow> (error + unit) \<times> world" where
  "check_actions_support self w =
     (if ACTIONS \<notin> set (capabilities self)
      then (Inl (ValueError (actions_not_supported_msg (name self))), w)
      else check_installation self w)"

definition check_scripts_support :: "file_manager \<Rightarrow> world \<Rightarrow> (error + unit) \<times> world" where
  "check_scripts_support self w =
     (if SCRIPTS \<notin> set (capabilities self)
      then (Inl (ValueError (scripts_not_supported_msg (name self))), w)
      else check_installation self w)"

section \<open>Installing a script (Nautilus, inherited by Caja and Nemo)\<close>

text \<open>
  The keyword options of \<^verbatim>\<open>install_script\<close>.  \<^verbatim>\<open>options['display_name']\<close> raises
  \<^verbatim>\<open>KeyError\<close> when the key is missing (\<open>None\<close>); the two flags are read with
  \<^verbatim>\<open>options.get(..., False)\<close>, so a missing flag is \<open>False\<close>.
\<close>

record script_options =
  display_name :: "string option"
  force_create_directories :: bool
  force_rename_existing :: bool

definition already_linked_msg :: "path \<Rightarrow> string" where
  "already_linked_msg p =
     ''Found the source script already linked as '' @ path_str p
       @ '', but ignoring the situation.''"

text \<open>
  The \<^verbatim>\<open>for\<close> loop over the entries of the scripts directory.  \<open>Inr True\<close>: the method
  returned from inside the loop (after the rename); \<open>Inr False\<close>: the loop ran to its end.
\<close>

fun scan_links ::
  "path \<Rightarrow> path \<Rightarrow> bool \<Rightarrow> path list \<Rightarrow> world \<Rightarrow> (error + bool) \<times> world" where
  "scan_links src target force [] w = (Inr False, w)"
| "scan_links src target force (single_path # rest) w =
     (case path_is_symlink single_path w of
        (Inl e, w1) \<Rightarrow> (Inl e, w1)
      | (Inr sl, w1) \<Rightarrow>
          if sl then
            (case path_readlink single_path w1 of
               (Inl e, w2) \<Rightarrow> (Inl e, w2)
             | (Inr t, w2) \<Rightarrow>
                 if t = src then
                   if force then
                     (case os_rename single_path target w2 of
                        (Inl e, w3) \<Rightarrow> (Inl e, w3)
                      | (Inr _, w3) \<Rightarrow> (Inr True, w3))
                   else scan_links src target force rest
                          (logging WARNING (already_linked_msg single_path) w2)
                 else scan_links src target force rest w2)
          else scan_links src target force rest w1)"

text \<open>
  The body of \<^verbatim>\<open>Nautilus.install_script\<close> after \<^verbatim>\<open>check_scripts_support\<close>, given the value
  of \<^verbatim>\<open>self.scripts_path\<close>.
\<close>

definition install_script_body ::
  "path \<Rightarrow> path \<Rightarrow> script_options \<Rightarrow> world \<Rightarrow> (error + unit) \<times> world" where
  "install_script_body sp absolute_source_path options w1 =
     (case path_is_dir sp w1 of
        (Inl e, w2) \<Rightarrow> (Inl e, w2)
      | (Inr isd, w2) \<Rightarrow>
      (case (if isd then (Inr (), w2)
             else if force_create_directories options then path_mkdir sp w2
             else (Inl (ValueError (not_available_msg sp)), w2)) of
         (Inl e, w3) \<Rightarrow> (Inl e, w3)
       | (Inr _, w3) \<Rightarrow>
          (case display_name options of
             None \<Rightarrow> (Inl (KeyError ''display_name''), w3)
           | Some dn \<Rightarrow>
              (let target_link_path = joinpath sp dn;
                   w4 = logging DEBUG (''Target path: '' @ path_str target_link_path) w3
               in case path_exists target_link_path w4 of
                    (Inl e, w5) \<Rightarrow> (Inl e, w5)
                  | (Inr ex, w5) \<Rightarrow>
                    if ex then (Inl (ValueError (already_exists_msg target_link_path)), w5)
                    else
                     (case path_glob sp w5 of
                        (Inl e, w6) \<Rightarrow> (Inl e, w6)
                      | (Inr found, w6) \<Rightarrow>
                      (case scan_links absolute_source_path target_link_path
                              (force_rename_existing options) found w6 of
                         (Inl e, w7) \<Rightarrow> (Inl e, w7)
                       | (Inr returned, w7) \<Rightarrow>
                           if returned then (Inr (), w7)
                           else os_symlink absolute_source_path target_link_path w7))))))"

text \<open>
  Method lookup: \<^verbatim>\<open>install_script\<close> is defined in \<^verbatim>\<open>Nautilus\<close> and inherited by \<^verbatim>\<open>Caja\<close> and
  \<^verbatim>\<open>Nemo\<close>; on an object of another class the attribute lookup raises \<^verbatim>\<open>AttributeError\<close>,
  as does reading \<^verbatim>\<open>self.scripts_path\<close> when \<^verbatim>\<open>__init__\<close> did not set it.
\<close>

definition has_install_script :: "fm_class \<Rightarrow> bool" where
  "has_install_script c = (c = Nautilus \<or> c = Caja \<or> c = Nemo)"

definition install_script ::
  "file_manager \<Rightarrow> path \<Rightarrow> script_options \<Rightarrow> world \<Rightarrow> (error + unit) \<times> world" where
  "install_script self absolute_source_path options w =
     (if \<not> has_install_script (cls self) then (Inl (AttributeError ''install_script''), w)
      else case check_scripts_support self w of
        (Inl e, w1) \<Rightarrow> (Inl e, w1)
      | (Inr _, w1) \<Rightarrow>
          (case scripts_path self of
             None \<Rightarrow> (Inl (AttributeError ''scripts_path''), w1)
           | Some sp \<Rightarrow> install_script_body sp absolute_source_path options w1))"

section \<open>Installing an action\<close>

text \<open>
  \<^verbatim>\<open>Nemo.install_action\<close>.  The keyword options are a dictionary from names to strings.  The
  file is opened before the template is rendered.
\<close>

definition nemo_install_action ::
  "file_manager \<Rightarrow> path \<Rightarrow> (string \<rightharpoonup> string) \<Rightarrow> world \<Rightarrow> (error + unit) \<times> world" where
  "nemo_install_action self source_path options w =
     (case check_actions_support self w of
        (Inl e, w1) \<Rightarrow> (Inl e, w1)
      | (Inr _, w1) \<Rightarrow>
          (case options ''name'' of
             None \<Rightarrow> (Inl (KeyError ''name''), w1)
           | Some action_name \<Rightarrow>
              (let target_file = action_name @ ''.nemo_action'';
                   options1 = options(''exec'' \<mapsto> path_str source_path)
               in case actions_path self of
                    None \<Rightarrow> (Inl (AttributeError ''actions_path''), w1)
                  | Some ap \<Rightarrow>
                      write_text (joinpath ap target_file)
                        (safe_substitute NEMO_ACTION_TEMPLATE options1) w1)))"

text \<open>
  Method lookup: \<^verbatim>\<open>Nemo\<close> implements \<^verbatim>\<open>install_action\<close>; \<^verbatim>\<open>Caja\<close>, \<^verbatim>\<open>KdefileManager\<close>,
  \<^verbatim>\<open>PcManFm\<close> and \<^verbatim>\<open>Thunar\<close> define it as \<^verbatim>\<open>raise NotImplementedError\<close>; \<^verbatim>\<open>BaseFileManager\<close>
  and \<^verbatim>\<open>Nautilus\<close> have no such method.
\<close>

definition install_action ::
  "file_manager \<Rightarrow> path \<Rightarrow> (string \<rightharpoonup> string) \<Rightarrow> world \<Rightarrow> (error + unit) \<times> world" where
  "install_action self source_path options w =
     (case cls self of
        Nemo \<Rightarrow> nemo_install_action self source_path options w
      | Caja \<Rightarrow> (Inl NotImplementedError, w)
      | KdefileManager \<Rightarrow> (Inl NotImplementedError, w)
      | PcManFm \<Rightarrow> (Inl NotImplementedError, w)
      | Thunar \<Rightarrow> (Inl NotImplementedError, w)
      | BaseFileManager \<Rightarrow> (Inl (AttributeError ''install_action''), w)
      | Nautilus \<Rightarrow> (Inl (AttributeError ''install_action''), w))"
section \<open>Notions used in the statements\<close>

text \<open>
  The symbolic links directly inside the directory at location \<open>D\<close> that point at \<open>src\<close>, in
  directory order.
\<close>

definition links_in :: "filesystem \<Rightarrow> location \<Rightarrow> path \<Rightarrow> location list" where
  "links_in F D src = filter (\<lambda>q. map_of (entries F) q = Some (Link src)) (listing F D)"

text \<open>
  A relative path of a few short names, as the configuration paths of the classes are: no
  call refuses it, nor the path of an entry inside it.
\<close>

definition short_relative :: "path \<Rightarrow> bool" where
  "short_relative p =
     (p \<noteq> [] \<and> \<not> is_absolute p \<and> CHR 0x00 \<notin> set (path_str p) \<and> length (path_str p) \<le> 1000)"

text \<open>The text a placeholder \<^verbatim>\<open>${key}\<close> of a template is rendered to.\<close>

definition rendered :: "(string \<rightharpoonup> string) \<Rightarrow> string \<Rightarrow> string" where
  "rendered m k = (case m k of Some v \<Rightarrow> v | None \<Rightarrow> ''${'' @ k @ ''}'')"

text \<open>
  The Nemo action file in the format the tool documents, over the fields of a dictionary:
  each field is the value given for it, or the placeholder where none is given.
\<close>

definition nemo_action_file :: "(string \<rightharpoonup> string) \<Rightarrow> string" where
  "nemo_action_file m =
     ''[Nemo Action]\<newline>Name='' @ rendered m ''name''
     @ ''\<newline>Comment='' @ rendered m ''comment''
     @ ''\<newline>Exec='' @ rendered m ''executable''
     @ '' %F\<newline>Selection=S\<newline>Extensions='' @ rendered m ''extensions''
     @ '';\<newline>Quote=double\<newline>''"

text \<open>
  The world in which the loop of \<open>install_script\<close> starts: the calls made and the line logged
  on the way there.
\<close>

definition before_scan :: "file_manager \<Rightarrow> path \<Rightarrow> path \<Rightarrow> world \<Rightarrow> world" where
  "before_scan self sp tgt w =
     sys (SYS_scandir sp)
       (sys (SYS_stat sp)
         (sys (SYS_stat tgt)
           (logging DEBUG (''Target path: '' @ path_str tgt)
             (sys (SYS_stat sp) (sys (SYS_stat (config_path self)) w)))))"

subsection \<open>A home directory and a script, for the examples\<close>

text \<open>The working directory is \<^verbatim>\<open>/home/u\<close>; Nemo has its directories there.\<close>

definition home_dir :: location where
  "home_dir = [''home'', ''u'']"

definition nemo_dir :: location where
  "nemo_dir = [''home'', ''u'', ''.local'', ''share'', ''nemo'']"

definition scripts_dir :: location where
  "scripts_dir = [''home'', ''u'', ''.local'', ''share'', ''nemo'', ''scripts'']"

definition actions_dir :: location where
  "actions_dir = [''home'', ''u'', ''.local'', ''share'', ''nemo'', ''actions'']"

definition home :: filesystem where
  "home =
     \<lparr>entries =
        [([''home''], Directory),
         ([''home'', ''u''], Directory),
         ([''home'', ''u'', ''.local''], Directory),
         ([''home'', ''u'', ''.local'', ''share''], Directory),
         ([''home'', ''u'', ''.local'', ''share'', ''nemo''], Directory),
         ([''home'', ''u'', ''.local'', ''share'', ''nemo'', ''scripts''], Directory),
         ([''home'', ''u'', ''.local'', ''share'', ''nemo'', ''actions''], Directory),
         ([''home'', ''u'', ''tools''], Directory)],
      cwd = [''home'', ''u'']\<rparr>"

definition rename_sh :: path where
  "rename_sh = [''/'', ''home'', ''u'', ''tools'', ''rename.sh'']"

definition nemo_scripts :: path where
  "nemo_scripts = [''.local'', ''share'', ''nemo'', ''scripts'']"

definition add_entry :: "location \<Rightarrow> node \<Rightarrow> filesystem \<Rightarrow> filesystem" where
  "add_entry q nd F = F\<lparr>entries := entries F @ [(q, nd)]\<rparr>"

text \<open>The script is there (\<open>home_script\<close>), or is not (\<open>home\<close>).\<close>

definition home_script :: filesystem where
  "home_script = add_entry [''home'', ''u'', ''tools'', ''rename.sh''] (Regular ''#!/bin/sh'') home"

definition old_link :: location where
  "old_link = [''home'', ''u'', ''.local'', ''share'', ''nemo'', ''scripts'', ''Old Name'']"

definition batch_rename :: location where
  "batch_rename = [''home'', ''u'', ''.local'', ''share'', ''nemo'', ''scripts'', ''Batch Rename'']"

text \<open>The script is linked as \<^verbatim>\<open>Old Name\<close>.\<close>

definition linked :: filesystem where
  "linked = add_entry old_link (Link rename_sh) home_script"

text \<open>A link \<^verbatim>\<open>Batch Rename\<close> to the script, which is not there.\<close>

definition dangling :: filesystem where
  "dangling = add_entry batch_rename (Link rename_sh) home"

text \<open>The script is linked as \<^verbatim>\<open>Old Name\<close>, and \<^verbatim>\<open>Batch Rename\<close> is a link to nowhere.\<close>

definition linked_and_dangling :: filesystem where
  "linked_and_dangling = add_entry batch_rename (Link [''/'', ''gone'']) linked"

text \<open>The script is linked as \<^verbatim>\<open>Batch Rename\<close>, after the renaming of \<^verbatim>\<open>Old Name\<close>.\<close>

definition relinked :: filesystem where
  "relinked = add_entry batch_rename (Link rename_sh) home_script"

definition start :: "filesystem \<Rightarrow> world" where
  "start F = \<lparr>fs = F, logged = [], calls = []\<rparr>"

definition plain :: "string \<Rightarrow> script_options" where
  "plain dn =
     \<lparr>display_name = Some dn, force_create_directories = False, force_rename_existing = False\<rparr>"

definition renaming :: "string \<Rightarrow> script_options" where
  "renaming dn =
     \<lparr>display_name = Some dn, force_create_directories = False, force_rename_existing = True\<rparr>"

text \<open>
  A machine on which no program can be started (the executable is not there), and one on
  which every program runs and exits with the given code.
\<close>

definition nothing_installed :: "string list \<Rightarrow> process_outcome" where
  "nothing_installed argv = SpawnFailed ENOENT"

definition exits_with :: "int \<Rightarrow> string list \<Rightarrow> process_outcome" where
  "exits_with rc argv = Exited rc"

definition rename_fields :: "string \<rightharpoonup> string" where
  "rename_fields =
     [''name'' \<mapsto> ''Rename'', ''comment'' \<mapsto> ''Batch rename'', ''extensions'' \<mapsto> ''txt'']"



text \<open>
  A home directory in which \<^verbatim>\<open>.local\<close> is a symbolic link to a name of 256 bytes, which no
  directory can hold.
\<close>

definition long_name :: string where
  "long_name = replicate 256 (CHR ''x'')"

definition lost :: filesystem where
  "lost =
     \<lparr>entries =
        [([''home''], Directory),
         ([''home'', ''u''], Directory),
         ([''home'', ''u'', ''.local''], Link [long_name])],
      cwd = [''home'', ''u'']\<rparr>"

text \<open>The script is linked as \<^verbatim>\<open>Old Name\<close> and as \<^verbatim>\<open>Batch Rename\<close>.\<close>

definition twice_linked :: filesystem where
  "twice_linked = add_entry batch_rename (Link rename_sh) linked"

section \<open>Basic facts\<close>

lemma fs_sys [simp]: "fs (sys c w) = fs w"
  by (simp add: sys_def)

lemma logged_sys [simp]: "logged (sys c w) = logged w"
  by (simp add: sys_def)

lemma calls_sys [simp]: "calls (sys c w) = calls w @ [c]"
  by (simp add: sys_def)

lemma fs_logging [simp]: "fs (logging l m w) = fs w"
  by (simp add: logging_def)

lemma logged_logging [simp]: "logged (logging l m w) = logged w @ [(l, m)]"
  by (simp add: logging_def)

lemma calls_logging [simp]: "calls (logging l m w) = calls w"
  by (simp add: logging_def)

section \<open>Facts about paths\<close>

lemma split_sep_no_slash: "CHR ''/'' \<notin> set s \<Longrightarrow> split_sep s = [s]"
  by (induction s) auto

lemma Path_name:
  assumes "s \<noteq> []" and "s \<noteq> ''.''" and "CHR ''/'' \<notin> set s"
  shows "Path s = [s]"
proof -
  from assms(1,3) have "takeWhile (\<lambda>c. c = CHR ''/'') s = []"
    by (cases s) auto
  then have "root_of s = []"
    by (simp add: root_of_def)
  with assms show ?thesis
    by (simp add: Path_def split_sep_no_slash)
qed

lemma not_absolute_name: "CHR ''/'' \<notin> set s \<Longrightarrow> \<not> is_absolute [s]"
  by (auto simp: is_absolute_def)

lemma joinpath_name:
  assumes "s \<noteq> []" and "s \<noteq> ''.''" and "CHR ''/'' \<notin> set s"
  shows "joinpath p s = p @ [s]"
  using assms by (simp add: joinpath_def Path_name not_absolute_name)

lemma joinpath_valid_name: "valid_name n \<Longrightarrow> joinpath p n = p @ [n]"
  by (simp add: valid_name_def joinpath_name)

lemma is_absolute_snoc: "p \<noteq> [] \<Longrightarrow> is_absolute (p @ [n]) = is_absolute p"
  by (cases p) (simp_all add: is_absolute_def)

lemma comps_snoc: "p \<noteq> [] \<Longrightarrow> comps (p @ [n]) = comps p @ [n]"
  by (cases p) (simp_all add: comps_def is_absolute_def)

lemma join_parts_snoc: "p \<noteq> [] \<Longrightarrow> join_parts (p @ [n]) = join_parts p @ ''/'' @ n"
  by (induction p rule: join_parts.induct) simp_all

lemma path_str_snoc:
  "p \<noteq> [] \<Longrightarrow> \<not> is_absolute p \<Longrightarrow> path_str (p @ [n]) = path_str p @ ''/'' @ n"
  by (simp add: path_str_def is_absolute_snoc join_parts_snoc)

lemma bad_string_child:
  assumes "short_relative p" and "valid_name n"
  shows "bad_string (path_str (p @ [n])) = None"
  using assms
  by (simp add: short_relative_def valid_name_def bad_string_def path_str_snoc
      NAME_MAX_def PATH_MAX_def)

lemma bad_string_short_relative: "short_relative p \<Longrightarrow> bad_string (path_str p) = None"
  by (simp add: short_relative_def bad_string_def PATH_MAX_def)

section \<open>Facts about path resolution\<close>

text \<open>
  Walking through \<open>cs1\<close> and on through \<open>cs2\<close>: the walk through \<open>cs1\<close> must end in a directory.
\<close>

lemma walk_append_aux:
  "md' = Follow \<Longrightarrow> cs2 \<noteq> [] \<Longrightarrow>
   walk md n E cur (cs1 @ cs2) =
     (case walk md' n E cur cs1 of
        Inl e \<Rightarrow> Inl e
      | Inr (D, x, m) \<Rightarrow>
          (case x of
             None \<Rightarrow> Inl ENOENT
           | Some Directory \<Rightarrow> walk md m E D cs2
           | Some _ \<Rightarrow> Inl ENOTDIR))"
proof (induction md' n E cur cs1 rule: walk.induct)
  case (1 md' n E cur)
  then show ?case by simp
next
  case (2 md' n E cur c cs)
  show ?case
  proof (cases "c = ''..''")
    case True
    with 2 show ?thesis by simp
  next
    case False
    note c = this
    show ?thesis
    proof (cases "NAME_MAX < length c")
      case True
      with c show ?thesis by simp
    next
      case False
      note len = this
      show ?thesis
      proof (cases "map_of E (cur @ [c])")
        case None
        with c len 2(5) show ?thesis by simp
      next
        case (Some nd)
        show ?thesis
        proof (cases nd)
          case Directory
          with c len Some 2(2) [OF c len Some Directory 2(4,5)] show ?thesis by simp
        next
          case (Regular x)
          with c len Some 2(5) show ?thesis by simp
        next
          case (Link t)
          show ?thesis
          proof (cases n)
            case 0
            with c len Some Link 2(4,5) show ?thesis by simp
          next
            case (Suc m)
            have "\<not> (cs = [] \<and> md' = NoFollow)"
              using 2(4) by simp
            from 2(3) [OF c len Some Link this Suc 2(4,5)]
            show ?thesis
              using c len Some Link Suc 2(4,5) by simp
          qed
        qed
      qed
    qed
  qed
qed

lemmas walk_append = walk_append_aux [OF refl]

lemma walk_name:
  "n \<noteq> ''..'' \<Longrightarrow> length n \<le> NAME_MAX
   \<Longrightarrow> walk NoFollow m E D [n] = Inr (D @ [n], map_of E (D @ [n]), m)"
  by (simp split: option.splits node.splits)

lemma walk_missing:
  "n \<noteq> ''..'' \<Longrightarrow> length n \<le> NAME_MAX \<Longrightarrow> map_of E (D @ [n]) = None
   \<Longrightarrow> walk md m E D [n] = Inr (D @ [n], None, m)"
  by simp

text \<open>The directory at which a path arrives.\<close>

lemma locate_directoryD:
  assumes "locate Follow F p = Inr (D, Some Directory)"
  shows "bad_string (path_str p) = None"
    and "\<exists>m. walk Follow symlink_limit (entries F) (if is_absolute p then [] else cwd F) (comps p)
            = Inr (D, Some Directory, m)"
  using assms by (auto simp: locate_def split: option.splits sum.splits)

text \<open>An entry of a directory, under the path of the directory extended by its name.\<close>

lemma locate_child:
  assumes dir: "locate Follow F sp = Inr (D, Some Directory)"
    and sp: "short_relative sp"
    and n: "valid_name n"
  shows "locate NoFollow F (sp @ [n]) = Inr (D @ [n], map_of (entries F) (D @ [n]))"
proof -
  from locate_directoryD(2) [OF dir] sp obtain m where
    m: "walk Follow symlink_limit (entries F) (cwd F) (comps sp) = Inr (D, Some Directory, m)"
    by (auto simp: short_relative_def)
  have ne: "sp \<noteq> []" and rel: "\<not> is_absolute sp"
    using sp by (simp_all add: short_relative_def)
  have "walk NoFollow symlink_limit (entries F) (cwd F) (comps sp @ [n])
      = walk NoFollow m (entries F) D [n]"
    by (simp add: walk_append m del: walk.simps)
  also have "\<dots> = Inr (D @ [n], map_of (entries F) (D @ [n]), m)"
    using n by (intro walk_name) (simp_all add: valid_name_def)
  finally show ?thesis
    using rel by (simp add: locate_def bad_string_child [OF sp n] is_absolute_snoc [OF ne]
        comps_snoc [OF ne] del: walk.simps)
qed

lemma locate_child_missing:
  assumes dir: "locate Follow F sp = Inr (D, Some Directory)"
    and sp: "short_relative sp"
    and n: "valid_name n"
    and free: "map_of (entries F) (D @ [n]) = None"
  shows "locate md F (sp @ [n]) = Inr (D @ [n], None)"
proof -
  from locate_directoryD(2) [OF dir] sp obtain m where
    m: "walk Follow symlink_limit (entries F) (cwd F) (comps sp) = Inr (D, Some Directory, m)"
    by (auto simp: short_relative_def)
  have ne: "sp \<noteq> []" and rel: "\<not> is_absolute sp"
    using sp by (simp_all add: short_relative_def)
  have "walk md symlink_limit (entries F) (cwd F) (comps sp @ [n])
      = walk md m (entries F) D [n]"
    by (simp add: walk_append m del: walk.simps)
  also have "\<dots> = Inr (D @ [n], None, m)"
    using n free by (intro walk_missing) (simp_all add: valid_name_def)
  finally show ?thesis
    using rel by (simp add: locate_def bad_string_child [OF sp n] is_absolute_snoc [OF ne]
        comps_snoc [OF ne] del: walk.simps)
qed

section \<open>Facts about the classes\<close>

lemmas class_defs =
  BaseFileManager_class_def Nautilus_class_def Caja_class_def Nemo_class_def
  KdefileManager_class_def PcManFm_class_def Thunar_class_def

lemma Path_config:
  "Path ''.local/share/unknown'' = [''.local'', ''share'', ''unknown'']"
  "Path ''.local/share/nautilus'' = [''.local'', ''share'', ''nautilus'']"
  "Path ''.local/share/caja'' = [''.local'', ''share'', ''caja'']"
  "Path ''.local/share/nemo'' = [''.local'', ''share'', ''nemo'']"
  by (simp_all add: Path_def root_of_def)

lemma joinpath_subdir:
  "joinpath p ''actions'' = p @ [''actions'']"
  "joinpath p ''scripts'' = p @ [''scripts'']"
  by (simp_all add: joinpath_name)

lemma capabilities_new: "capabilities (new c) = capabilities (class_attributes c)"
  by (simp add: new_def init_def Let_def)

lemma config_path_new: "config_path (new c) = config_path (class_attributes c)"
  by (simp add: new_def init_def Let_def)

lemma name_new: "name (new c) = name (class_attributes c)"
  by (simp add: new_def init_def Let_def)

lemma cls_new [simp]: "cls (new c) = c"
  by (cases c) (simp_all add: new_def init_def Let_def class_defs)

lemma class_attributes_no_paths:
  "actions_path (class_attributes c) = None \<and> scripts_path (class_attributes c) = None"
  by (cases c) (simp_all add: class_defs)

lemma new_Nemo:
  "cls (new Nemo) = Nemo"
  "name (new Nemo) = ''Nemo''"
  "config_path (new Nemo) = [''.local'', ''share'', ''nemo'']"
  "ACTIONS \<in> set (capabilities (new Nemo))"
  "SCRIPTS \<in> set (capabilities (new Nemo))"
  "actions_path (new Nemo) = Some [''.local'', ''share'', ''nemo'', ''actions'']"
  "scripts_path (new Nemo) = Some [''.local'', ''share'', ''nemo'', ''scripts'']"
  by (simp_all add: new_def init_def Let_def class_defs Path_config joinpath_subdir)

lemma new_with_install_script:
  assumes "has_install_script c"
  shows "scripts_path (new c) = Some (config_path (new c) @ [''scripts''])"
    and "SCRIPTS \<in> set (capabilities (new c))"
    and "short_relative (config_path (new c))"
    and "short_relative (config_path (new c) @ [''scripts''])"
  using assms
  by (cases c;
      simp add: has_install_script_def new_def init_def Let_def class_defs Path_config
        joinpath_subdir short_relative_def is_absolute_def path_str_def)+

section \<open>Facts about the file system\<close>

lemma bad_string_error:
  "bad_string s = Some e \<Longrightarrow> e = ValueError ''embedded null byte'' \<or> (\<exists>k f g. e = OSError k f g)"
  by (auto simp: bad_string_def split: if_splits)

lemma locate_error:
  "locate md F p = Inl e \<Longrightarrow> e = ValueError ''embedded null byte'' \<or> (\<exists>k f g. e = OSError k f g)"
  by (auto simp: locate_def split: option.splits sum.splits dest: bad_string_error)

lemma stat_error:
  "stat F p = Inl e \<Longrightarrow> e = ValueError ''embedded null byte'' \<or> (\<exists>k f g. e = OSError k f g)"
  by (auto simp: stat_def split: sum.splits option.splits dest: locate_error)

lemma ignored_error:
  "ignored e = Inl e' \<Longrightarrow> e = ValueError m \<or> (\<exists>k f g. e = OSError k f g)
   \<Longrightarrow> \<exists>k f g. e' = OSError k f g"
  by (auto simp: ignored_def split: if_splits)

lemma is_dir_error: "is_dir F p = Inl e \<Longrightarrow> \<exists>k f g. e = OSError k f g"
  by (auto simp: is_dir_def split: sum.splits dest!: stat_error elim: ignored_error)

lemma exists_error: "exists F p = Inl e \<Longrightarrow> \<exists>k f g. e = OSError k f g"
  by (auto simp: exists_def split: sum.splits dest!: stat_error elim: ignored_error)

lemma open_target_error:
  "open_target F p = Inl e
   \<Longrightarrow> e = ValueError ''embedded null byte'' \<or> (\<exists>k f g. e = OSError k f g)"
  by (auto simp: open_target_def split: sum.splits option.splits node.splits dest: locate_error)

lemma is_dir_locate:
  "is_dir F p = Inr True \<Longrightarrow> \<exists>D. locate Follow F p = Inr (D, Some Directory)"
  by (auto simp: is_dir_def stat_def ignored_def
      split: sum.splits option.splits error.splits if_splits)

lemma locate_is_dir: "locate Follow F p = Inr (D, Some Directory) \<Longrightarrow> is_dir F p = Inr True"
  by (simp add: is_dir_def stat_def)

lemma locate_missing_exists: "locate Follow F p = Inr (q, None) \<Longrightarrow> exists F p = Inr False"
  by (simp add: exists_def stat_def ignored_def)

lemma update_absent: "map_of F k = None \<Longrightarrow> AList.update k v F = F @ [(k, v)]"
  by (induction F) (auto split: if_splits)

lemma filter_removeAll: "filter P (removeAll x xs) = removeAll x (filter P xs)"
  by (simp add: removeAll_filter_not_eq conj_commute)

lemma length_delete:
  "distinct (map fst F) \<Longrightarrow> map_of F k = Some v \<Longrightarrow> Suc (length (AList.delete k F)) = length F"
proof (induction F)
  case Nil
  then show ?case by simp
next
  case (Cons a F)
  show ?case
  proof (cases "fst a = k")
    case True
    with Cons.prems(1) have "k \<notin> fst ` set F" by auto
    then have "AList.delete k F = F"
      by (induction F) auto
    with True show ?thesis by (cases a) simp
  next
    case False
    with Cons show ?thesis by (cases a) (auto simp: AList.delete_eq)
  qed
qed

lemma os_rename_unfold:
  "os_rename p q w =
     (case fs_rename (fs w) p q of
        Inl e \<Rightarrow> (Inl e, sys (SYS_rename p q) w)
      | Inr F' \<Rightarrow> (Inr (), (sys (SYS_rename p q) w)\<lparr>fs := F'\<rparr>))"
  by (simp add: os_rename_def change_def)

lemma os_symlink_unfold:
  "os_symlink p q w =
     (case fs_symlink (fs w) p q of
        Inl e \<Rightarrow> (Inl e, sys (SYS_symlink p q) w)
      | Inr F' \<Rightarrow> (Inr (), (sys (SYS_symlink p q) w)\<lparr>fs := F'\<rparr>))"
  by (simp add: os_symlink_def change_def)

lemma write_text_unfold:
  "write_text p body w =
     (case open_target (fs w) p of
        Inl e \<Rightarrow> (Inl e, sys (SYS_open p) w)
      | Inr q \<Rightarrow>
          (Inr (),
           (sys (SYS_open p) w)
             \<lparr>fs := (fs w)\<lparr>entries := AList.update q (Regular body) (entries (fs w))\<rparr>\<rparr>))"
  by (simp add: write_text_def change_def fs_write_text_def split: sum.splits)

text \<open>The configuration directory is on the way to the scripts directory.\<close>

lemma locate_parent:
  assumes dir: "locate Follow F (p @ [n]) = Inr (D, Some Directory)"
    and p: "short_relative p"
  shows "\<exists>D'. locate Follow F p = Inr (D', Some Directory)"
proof -
  have ne: "p \<noteq> []" and rel: "\<not> is_absolute p"
    using p by (simp_all add: short_relative_def)
  from locate_directoryD(2) [OF dir] obtain m where
    m: "walk Follow symlink_limit (entries F) (cwd F) (comps p @ [n]) = Inr (D, Some Directory, m)"
    using rel by (auto simp: is_absolute_snoc [OF ne] comps_snoc [OF ne])
  then obtain D' k where
    "walk Follow symlink_limit (entries F) (cwd F) (comps p) = Inr (D', Some Directory, k)"
    by (auto simp: walk_append simp del: walk.simps
        split: sum.splits option.splits node.splits)
  then show ?thesis
    using rel by (simp add: locate_def bad_string_short_relative [OF p])
qed

section \<open>The example worlds\<close>

lemmas example_defs =
  home_def home_script_def linked_def dangling_def linked_and_dangling_def relinked_def
  add_entry_def old_link_def batch_rename_def rename_sh_def nemo_scripts_def scripts_dir_def
  actions_dir_def nemo_dir_def home_dir_def

lemma has_install_script_Nemo: "has_install_script Nemo"
  by (simp add: has_install_script_def)

lemma scripts_path_Nemo: "scripts_path (new Nemo) = Some nemo_scripts"
  by (simp add: new_Nemo nemo_scripts_def)

lemma valid_name_Batch_Rename: "valid_name ''Batch Rename''"
  by (simp add: valid_name_def NAME_MAX_def)

lemma path_str_examples:
  "path_str (nemo_scripts @ [''Batch Rename'']) = ''.local/share/nemo/scripts/Batch Rename''"
  "path_str (nemo_scripts @ [''Old Name'']) = ''.local/share/nemo/scripts/Old Name''"
  "path_str rename_sh = ''/home/u/tools/rename.sh''"
  by (simp_all add: path_str_def is_absolute_def nemo_scripts_def rename_sh_def)

lemma wf_fs_examples:
  "wf_fs home" "wf_fs home_script" "wf_fs linked" "wf_fs dangling" "wf_fs linked_and_dangling"
  by (simp_all add: wf_fs_def named_def valid_name_def stored_def bad_string_def path_str_def
      is_absolute_def NAME_MAX_def PATH_MAX_def example_defs)

lemma walk_home_config:
  "walk Follow n (entries home) (cwd home) [''.local'', ''share'', ''nemo'']
     = Inr (nemo_dir, Some Directory, n)"
  by (simp add: home_def nemo_dir_def NAME_MAX_def)

lemma locate_home_config:
  "locate Follow home [''.local'', ''share'', ''nemo''] = Inr (nemo_dir, Some Directory)"
  by (simp add: locate_def bad_string_def path_str_def is_absolute_def comps_def PATH_MAX_def
      walk_home_config del: walk.simps)

lemma walk_home_actions_file:
  "walk Follow n (entries home) (cwd home)
       [''.local'', ''share'', ''nemo'', ''actions'', ''Rename.nemo_action'']
     = Inr (actions_dir @ [''Rename.nemo_action''], None, n)"
  by (simp add: home_def actions_dir_def NAME_MAX_def)

lemma open_target_home_Rename:
  "open_target home [''.local'', ''share'', ''nemo'', ''actions'', ''Rename.nemo_action'']
     = Inr (actions_dir @ [''Rename.nemo_action''])"
  by (simp add: open_target_def locate_def bad_string_def path_str_def is_absolute_def comps_def
      PATH_MAX_def walk_home_actions_file del: walk.simps)

lemma is_dir_home_config: "is_dir home [''.local'', ''share'', ''nemo''] = Inr True"
  by (rule locate_is_dir [OF locate_home_config])

lemma long_name_facts:
  "long_name \<noteq> ''..''" "long_name \<noteq> ''/''" "long_name \<noteq> ''//''" "NAME_MAX < length long_name"
  by (auto simp: long_name_def NAME_MAX_def dest: arg_cong [where f = length])

lemma is_dir_lost_config:
  "is_dir lost [''.local'', ''share'', ''nemo'']
     = Inl (OSError ENAMETOOLONG ''.local/share/nemo'' None)"
  by (simp add: is_dir_def stat_def locate_def bad_string_def path_str_def is_absolute_def
      comps_def PATH_MAX_def symlink_limit_def lost_def long_name_facts ignored_def)

section \<open>The constructor\<close>

text \<open>
  C9.  On every constructed object, \<open>actions_path\<close> is defined exactly when \<^verbatim>\<open>actions\<close> is among
  its capabilities, and \<open>scripts_path\<close> exactly when \<^verbatim>\<open>scripts\<close> is; a defined attribute is the
  configuration path joined with the respective subdirectory name.
\<close>

theorem init_paths_iff_capabilities:
  "(actions_path (new c) \<noteq> None) = (ACTIONS \<in> set (capabilities (new c)))
   \<and> (scripts_path (new c) \<noteq> None) = (SCRIPTS \<in> set (capabilities (new c)))
   \<and> actions_path (new c)
       \<in> {None, Some (joinpath (config_path (new c)) (actions_subdir (new c)))}
   \<and> scripts_path (new c)
       \<in> {None, Some (joinpath (config_path (new c)) (scripts_subdir (new c)))}"
proof -
  let ?a = "class_attributes c"
  have a: "actions_path (new c) =
      (if ACTIONS \<in> set (capabilities ?a)
       then Some (joinpath (config_path ?a) (actions_subdir ?a)) else None)"
    by (simp add: new_def init_def Let_def class_attributes_no_paths)
  have s: "scripts_path (new c) =
      (if SCRIPTS \<in> set (capabilities ?a)
       then Some (joinpath (config_path ?a) (scripts_subdir ?a)) else None)"
    by (simp add: new_def init_def Let_def class_attributes_no_paths)
  have sub: "actions_subdir (new c) = actions_subdir ?a" "scripts_subdir (new c) = scripts_subdir ?a"
    by (simp_all add: new_def init_def Let_def)
  show ?thesis
    by (simp add: a s sub capabilities_new config_path_new)
qed

theorem init_paths_examples:
  "actions_path (new Nemo) = Some [''.local'', ''share'', ''nemo'', ''actions'']
   \<and> scripts_path (new Nemo) = Some [''.local'', ''share'', ''nemo'', ''scripts'']
   \<and> actions_path (new Nautilus) = None
   \<and> scripts_path (new Nautilus) = Some [''.local'', ''share'', ''nautilus'', ''scripts'']
   \<and> actions_path (new Thunar) = Some [''.local'', ''share'', ''unknown'', ''actions'']
   \<and> scripts_path (new Thunar) = None
   \<and> actions_path (new BaseFileManager) = None
   \<and> scripts_path (new BaseFileManager) = None"
  using init_paths_iff_capabilities [of Nemo] init_paths_iff_capabilities [of Nautilus]
    init_paths_iff_capabilities [of Thunar] init_paths_iff_capabilities [of BaseFileManager]
  by (simp add: capabilities_new config_path_new class_defs ACTIONS_def SCRIPTS_def
      Path_config joinpath_subdir new_def init_def Let_def)

section \<open>The installation check\<close>

text \<open>
  C8.  \<open>check_installation\<close> fails with the message that the file manager is probably not
  installed exactly when \<^verbatim>\<open>is_dir\<close> answers \<^verbatim>\<open>False\<close> for the configuration directory of the
  object, and succeeds exactly when it answers \<^verbatim>\<open>True\<close>; where \<^verbatim>\<open>is_dir\<close> raises, the call
  fails with that \<^verbatim>\<open>OSError\<close>.  The capabilities of the object play no part, and the file
  system is left as it is.
\<close>

theorem check_installation_iff_config_dir:
  "(fst (check_installation self w) = Inl (ValueError (not_installed_msg (name self))))
     = (is_dir (fs w) (config_path self) = Inr False)
   \<and> (fst (check_installation self w) = Inr ()) = (is_dir (fs w) (config_path self) = Inr True)
   \<and> (fst (check_installation self w) = Inl (OSError k f g))
       = (is_dir (fs w) (config_path self) = Inl (OSError k f g))
   \<and> check_installation (self\<lparr>capabilities := cs\<rparr>) w = check_installation self w
   \<and> fs (snd (check_installation self w)) = fs w"
proof (cases "is_dir (fs w) (config_path self)")
  case (Inl e)
  with is_dir_error [OF Inl] show ?thesis
    by (auto simp: check_installation_def path_is_dir_def)
next
  case (Inr b)
  then show ?thesis
    by (simp add: check_installation_def path_is_dir_def)
qed

text \<open>
  The configuration directory of Nemo is not there: \<^verbatim>\<open>.local\<close> is a link to a name of 256
  bytes.  \<^verbatim>\<open>stat\<close> fails with \<open>ENAMETOOLONG\<close>, which \<^verbatim>\<open>is_dir\<close> raises again, and
  \<open>check_installation\<close> fails with that error, not with its own.
\<close>

theorem check_installation_raises_name_too_long:
  "stat lost (config_path (new Nemo)) = Inl (OSError ENAMETOOLONG ''.local/share/nemo'' None)
   \<and> is_dir lost (config_path (new Nemo)) \<noteq> Inr True
   \<and> fst (check_installation (new Nemo) (start lost))
       = Inl (OSError ENAMETOOLONG ''.local/share/nemo'' None)
   \<and> fst (check_installation (new Nemo) (start lost))
       \<noteq> Inl (ValueError (not_installed_msg (name (new Nemo))))"
proof -
  have "stat lost [''.local'', ''share'', ''nemo'']
      = Inl (OSError ENAMETOOLONG ''.local/share/nemo'' None)"
    by (simp add: stat_def locate_def bad_string_def path_str_def is_absolute_def
        comps_def PATH_MAX_def symlink_limit_def lost_def long_name_facts)
  then show ?thesis
    by (simp add: check_installation_def path_is_dir_def new_Nemo start_def is_dir_lost_config)
qed

section \<open>The probe for the executable\<close>

lemma is_installed_exit:
  "run [executable self, ''--version''] = Exited rc
   \<Longrightarrow> is_installed self run = Inr (rc = 0)"
  by (simp add: is_installed_def)

lemma is_installed_exit_codes:
  "is_installed (new Nemo) (exits_with 0) = Inr True"
  "is_installed (new Nemo) (exits_with 1) = Inr False"
  "is_installed (new Nemo) (exits_with (- 15)) = Inr False"
  by (simp_all add: is_installed_def exits_with_def)

lemma is_installed_spawn_failure:
  "run [executable self, ''--version''] = SpawnFailed e
   \<Longrightarrow> is_installed self run = Inl (OSError e (executable self) None)"
  by (simp add: is_installed_def)

text \<open>
  C7.  Where the executable of Nautilus cannot be started, \<open>is_installed\<close> does not return
  \<open>False\<close>: the \<^verbatim>\<open>FileNotFoundError\<close> of \<^verbatim>\<open>subprocess.run\<close> leaves the method, which catches
  \<^verbatim>\<open>CalledProcessError\<close> only.
\<close>

theorem is_installed_raises_when_not_installed:
  "is_installed (new Nautilus) nothing_installed
     = Inl (OSError ENOENT ''/usr/bin/nautilus'' None)"
  by (simp add: is_installed_def nothing_installed_def new_def init_def Let_def class_defs)

section \<open>The capability checks\<close>

lemma not_installed_msg_neq:
  "not_installed_msg nm \<noteq> actions_not_supported_msg nm"
  "not_installed_msg nm \<noteq> scripts_not_supported_msg nm"
proof -
  have "length (not_installed_msg nm) \<noteq> length (actions_not_supported_msg nm)"
    and "length (not_installed_msg nm) \<noteq> length (scripts_not_supported_msg nm)"
    by (simp_all add: not_installed_msg_def actions_not_supported_msg_def
        scripts_not_supported_msg_def)
  then show "not_installed_msg nm \<noteq> actions_not_supported_msg nm"
    and "not_installed_msg nm \<noteq> scripts_not_supported_msg nm"
    by auto
qed

lemma check_installation_not_capability_error:
  "fst (check_installation self w) \<noteq> Inl (ValueError (actions_not_supported_msg (name self)))"
  "fst (check_installation self w) \<noteq> Inl (ValueError (scripts_not_supported_msg (name self)))"
  by (auto simp: check_installation_def path_is_dir_def not_installed_msg_neq
      split: sum.splits dest: is_dir_error)

lemma check_actions_support_absent:
  "ACTIONS \<notin> set (capabilities self)
   \<Longrightarrow> check_actions_support self w
       = (Inl (ValueError (actions_not_supported_msg (name self))), w)"
  by (simp add: check_actions_support_def)

lemma check_scripts_support_absent:
  "SCRIPTS \<notin> set (capabilities self)
   \<Longrightarrow> check_scripts_support self w
       = (Inl (ValueError (scripts_not_supported_msg (name self))), w)"
  by (simp add: check_scripts_support_def)

lemma check_actions_support_present:
  "ACTIONS \<in> set (capabilities self)
   \<Longrightarrow> check_actions_support self w = check_installation self w
     \<and> fst (check_actions_support self w)
         \<noteq> Inl (ValueError (actions_not_supported_msg (name self)))"
  by (simp add: check_actions_support_def check_installation_not_capability_error)

lemma check_scripts_support_present:
  "SCRIPTS \<in> set (capabilities self)
   \<Longrightarrow> check_scripts_support self w = check_installation self w
     \<and> fst (check_scripts_support self w)
         \<noteq> Inl (ValueError (scripts_not_supported_msg (name self)))"
  by (simp add: check_scripts_support_def check_installation_not_capability_error)

text \<open>The two installers that exist start with the check.\<close>

lemma install_script_checks_first:
  "has_install_script (cls self) \<Longrightarrow> SCRIPTS \<notin> set (capabilities self)
   \<Longrightarrow> install_script self src sopts w
       = (Inl (ValueError (scripts_not_supported_msg (name self))), w)"
  by (simp add: install_script_def check_scripts_support_def)

lemma nemo_install_action_checks_first:
  "cls self = Nemo \<Longrightarrow> ACTIONS \<notin> set (capabilities self)
   \<Longrightarrow> install_action self src opts w
       = (Inl (ValueError (actions_not_supported_msg (name self))), w)"
  by (simp add: install_action_def nemo_install_action_def check_actions_support_def)

text \<open>The seven classes: which methods they have against which capabilities they declare.\<close>

lemma scripts_capability_iff: "(SCRIPTS \<in> set (capabilities (new c))) = has_install_script c"
  by (cases c)
     (simp_all add: capabilities_new class_defs has_install_script_def ACTIONS_def SCRIPTS_def)

lemma actions_capability_iff:
  "(ACTIONS \<in> set (capabilities (new c))) = (c \<noteq> BaseFileManager \<and> c \<noteq> Nautilus)"
  by (cases c) (simp_all add: capabilities_new class_defs ACTIONS_def SCRIPTS_def)

lemma install_script_without_capability:
  "SCRIPTS \<notin> set (capabilities (new c))
   \<Longrightarrow> install_script (new c) src sopts w = (Inl (AttributeError ''install_script''), w)"
  by (simp add: scripts_capability_iff install_script_def)

lemma install_script_with_capability:
  "SCRIPTS \<in> set (capabilities (new c))
   \<Longrightarrow> install_script (new c) src sopts w =
       (case check_installation (new c) w of
          (Inl e, w1) \<Rightarrow> (Inl e, w1)
        | (Inr u, w1) \<Rightarrow>
            install_script_body (joinpath (config_path (new c)) ''scripts'') src sopts w1)"
  by (simp add: install_script_def check_scripts_support_def scripts_capability_iff
      new_with_install_script(1) joinpath_subdir cong: prod.case_cong sum.case_cong)

lemma install_action_without_capability:
  "ACTIONS \<notin> set (capabilities (new c))
   \<Longrightarrow> install_action (new c) src opts w = (Inl (AttributeError ''install_action''), w)"
  by (cases c) (simp_all add: actions_capability_iff install_action_def)

lemma install_action_not_implemented:
  "ACTIONS \<in> set (capabilities (new c)) \<Longrightarrow> c \<noteq> Nemo
   \<Longrightarrow> install_action (new c) src opts w = (Inl NotImplementedError, w)"
  by (cases c) (simp_all add: actions_capability_iff install_action_def)

text \<open>What Nemo's \<open>install_action\<close> does after the installation check.\<close>

lemma nemo_install_action_unfold:
  "install_action (new Nemo) src opts w =
     (case is_dir (fs w) [''.local'', ''share'', ''nemo''] of
        Inl e \<Rightarrow> (Inl e, sys (SYS_stat [''.local'', ''share'', ''nemo'']) w)
      | Inr isd \<Rightarrow>
          if \<not> isd
          then (Inl (ValueError (not_installed_msg ''Nemo'')),
                sys (SYS_stat [''.local'', ''share'', ''nemo'']) w)
          else (case opts ''name'' of
                  None \<Rightarrow> (Inl (KeyError ''name''), sys (SYS_stat [''.local'', ''share'', ''nemo'']) w)
                | Some nm \<Rightarrow>
                    write_text
                      (joinpath [''.local'', ''share'', ''nemo'', ''actions''] (nm @ ''.nemo_action''))
                      (safe_substitute NEMO_ACTION_TEMPLATE (opts(''exec'' \<mapsto> path_str src)))
                      (sys (SYS_stat [''.local'', ''share'', ''nemo'']) w)))"
  by (simp add: install_action_def nemo_install_action_def check_actions_support_def
      check_installation_def path_is_dir_def new_Nemo Let_def
      split: sum.splits option.splits)

lemma nemo_install_action_passes_check:
  "fst (install_action (new Nemo) src opts w)
     \<noteq> Inl (ValueError (actions_not_supported_msg (name (new Nemo))))"
proof -
  have a: "not_installed_msg ''Nemo'' \<noteq> actions_not_supported_msg ''Nemo''"
    by (rule not_installed_msg_neq)
  have b: "''embedded null byte'' \<noteq> actions_not_supported_msg ''Nemo''"
    by (simp add: actions_not_supported_msg_def)
  show ?thesis
    unfolding nemo_install_action_unfold
    using a b
    by (auto simp: new_Nemo write_text_unfold
        split: sum.splits option.splits dest: is_dir_error open_target_error)
qed

text \<open>
  C2.  On every object, \<open>check_actions_support\<close> and \<open>check_scripts_support\<close> fail with the
  error that the kind is not supported exactly when the kind is not among the capabilities,
  and then the world is untouched: no system call has been made.  \<open>install_script\<close> (of
  Nautilus, Caja and Nemo) and Nemo's \<open>install_action\<close> start with that check.  On the seven
  constructed objects, a call of \<open>install_script\<close> or \<open>install_action\<close> whose kind is not among
  the capabilities fails with the world untouched, but with \<^verbatim>\<open>AttributeError\<close>: the class has
  no such method.  Where the kind is among the capabilities, \<open>install_script\<close> goes on to the
  installation check and the body, Nemo's \<open>install_action\<close> does not fail with the capability
  error, and \<open>install_action\<close> of the other classes raises \<^verbatim>\<open>NotImplementedError\<close> at once.
\<close>

theorem capability_decides_install:
  "(ACTIONS \<notin> set (capabilities self) \<longrightarrow>
      check_actions_support self w
        = (Inl (ValueError (actions_not_supported_msg (name self))), w))
   \<and> (ACTIONS \<in> set (capabilities self) \<longrightarrow>
      fst (check_actions_support self w)
        \<noteq> Inl (ValueError (actions_not_supported_msg (name self))))
   \<and> (SCRIPTS \<notin> set (capabilities self) \<longrightarrow>
      check_scripts_support self w
        = (Inl (ValueError (scripts_not_supported_msg (name self))), w))
   \<and> (SCRIPTS \<in> set (capabilities self) \<longrightarrow>
      fst (check_scripts_support self w)
        \<noteq> Inl (ValueError (scripts_not_supported_msg (name self))))
   \<and> (has_install_script (cls self) \<and> SCRIPTS \<notin> set (capabilities self) \<longrightarrow>
      install_script self src sopts w
        = (Inl (ValueError (scripts_not_supported_msg (name self))), w))
   \<and> (cls self = Nemo \<and> ACTIONS \<notin> set (capabilities self) \<longrightarrow>
      install_action self src opts w
        = (Inl (ValueError (actions_not_supported_msg (name self))), w))
   \<and> (SCRIPTS \<notin> set (capabilities (new c)) \<longrightarrow>
      install_script (new c) src sopts w = (Inl (AttributeError ''install_script''), w))
   \<and> (SCRIPTS \<in> set (capabilities (new c)) \<longrightarrow>
      install_script (new c) src sopts w =
        (case check_installation (new c) w of
           (Inl e, w1) \<Rightarrow> (Inl e, w1)
         | (Inr u, w1) \<Rightarrow>
             install_script_body (joinpath (config_path (new c)) ''scripts'') src sopts w1))
   \<and> (ACTIONS \<notin> set (capabilities (new c)) \<longrightarrow>
      install_action (new c) src opts w = (Inl (AttributeError ''install_action''), w))
   \<and> (ACTIONS \<in> set (capabilities (new c)) \<and> c \<noteq> Nemo \<longrightarrow>
      install_action (new c) src opts w = (Inl NotImplementedError, w))
   \<and> ACTIONS \<in> set (capabilities (new Nemo))
   \<and> fst (install_action (new Nemo) src opts w)
       \<noteq> Inl (ValueError (actions_not_supported_msg (name (new Nemo))))"
  using check_actions_support_absent [of self w] check_actions_support_present [of self w]
    check_scripts_support_absent [of self w] check_scripts_support_present [of self w]
    install_script_checks_first [of self src sopts w]
    nemo_install_action_checks_first [of self src opts w]
    install_script_without_capability [of c src sopts w]
    install_script_with_capability [of c src sopts w]
    install_action_without_capability [of c src opts w]
    install_action_not_implemented [of c src opts w]
    new_Nemo(4) nemo_install_action_passes_check [of src opts w]
  by blast

theorem capability_examples:
  "check_scripts_support (new Thunar) (start home)
     = (Inl (ValueError ''Scripts not supported in Thunar!''), start home)
   \<and> check_actions_support (new Nautilus) (start home)
     = (Inl (ValueError ''Actions not supported in Nautilus!''), start home)
   \<and> fst (check_actions_support (new Nemo) (start home)) = Inr ()
   \<and> fst (check_scripts_support (new Caja) (start home))
     = Inl (ValueError ''Caja is probably not installed!'')
   \<and> install_script (new KdefileManager) rename_sh (plain ''Batch Rename'') (start home)
     = (Inl (AttributeError ''install_script''), start home)
   \<and> install_action (new BaseFileManager) rename_sh rename_fields (start home)
     = (Inl (AttributeError ''install_action''), start home)
   \<and> install_action (new Caja) rename_sh rename_fields (start home)
     = (Inl NotImplementedError, start home)
   \<and> install_action (new PcManFm) rename_sh rename_fields (start home)
     = (Inl NotImplementedError, start home)"
proof -
  have caps: "SCRIPTS \<notin> set (capabilities (new Thunar))"
    "ACTIONS \<notin> set (capabilities (new Nautilus))"
    "SCRIPTS \<notin> set (capabilities (new KdefileManager))"
    "ACTIONS \<notin> set (capabilities (new BaseFileManager))"
    "ACTIONS \<in> set (capabilities (new Caja))" "ACTIONS \<in> set (capabilities (new PcManFm))"
    by (simp_all add: capabilities_new class_defs ACTIONS_def SCRIPTS_def)
  have names: "scripts_not_supported_msg (name (new Thunar)) = ''Scripts not supported in Thunar!''"
    "actions_not_supported_msg (name (new Nautilus)) = ''Actions not supported in Nautilus!''"
    by (simp_all add: name_new class_defs scripts_not_supported_msg_def
        actions_not_supported_msg_def)
  have a: "check_scripts_support (new Thunar) (start home)
     = (Inl (ValueError ''Scripts not supported in Thunar!''), start home)"
    using capability_decides_install [of "new Thunar" "start home"] caps(1)
    by (simp only: names simp_thms)
  have b: "check_actions_support (new Nautilus) (start home)
     = (Inl (ValueError ''Actions not supported in Nautilus!''), start home)"
    using capability_decides_install [of "new Nautilus" "start home"] caps(2)
    by (simp only: names simp_thms)
  have c: "fst (check_actions_support (new Nemo) (start home)) = Inr ()"
    by (simp add: check_actions_support_def check_installation_def path_is_dir_def new_Nemo
        start_def is_dir_home_config)
  have "is_dir home [''.local'', ''share'', ''caja''] = Inr False"
    by (simp add: is_dir_def stat_def locate_def bad_string_def path_str_def is_absolute_def
        comps_def PATH_MAX_def NAME_MAX_def home_def ignored_def)
  then have d: "fst (check_scripts_support (new Caja) (start home))
     = Inl (ValueError ''Caja is probably not installed!'')"
    by (simp add: check_scripts_support_def check_installation_def path_is_dir_def
        capabilities_new config_path_new name_new class_defs ACTIONS_def SCRIPTS_def
        start_def Path_config not_installed_msg_def)
  have e: "install_script (new KdefileManager) rename_sh (plain ''Batch Rename'') (start home)
     = (Inl (AttributeError ''install_script''), start home)"
    using capability_decides_install
      [where c = KdefileManager and src = rename_sh and sopts = "plain ''Batch Rename''"
         and w = "start home"] caps(3)
    by (simp only: simp_thms)
  have f: "install_action (new BaseFileManager) rename_sh rename_fields (start home)
     = (Inl (AttributeError ''install_action''), start home)"
    using capability_decides_install
      [where c = BaseFileManager and src = rename_sh and opts = rename_fields
         and w = "start home"] caps(4)
    by (simp only: simp_thms)
  have g: "install_action (new Caja) rename_sh rename_fields (start home)
     = (Inl NotImplementedError, start home)"
    using capability_decides_install
      [where c = Caja and src = rename_sh and opts = rename_fields and w = "start home"] caps(5)
    by (simp only: simp_thms fm_class.distinct)
  have h: "install_action (new PcManFm) rename_sh rename_fields (start home)
     = (Inl NotImplementedError, start home)"
    using capability_decides_install
      [where c = PcManFm and src = rename_sh and opts = rename_fields and w = "start home"]
      caps(6)
    by (simp only: simp_thms fm_class.distinct)
  from a b c d e f g h show ?thesis
    by (simp only: simp_thms)
qed

text \<open>
  Nautilus has no \<^verbatim>\<open>actions\<close> capability, and \<open>install_action\<close> on it does not fail with the
  capability error: the attribute lookup fails.
\<close>

theorem nautilus_install_action_attribute_error:
  "ACTIONS \<notin> set (capabilities (new Nautilus))
   \<and> install_action (new Nautilus) rename_sh rename_fields (start home)
       = (Inl (AttributeError ''install_action''), start home)
   \<and> Inl (AttributeError ''install_action'')
       \<noteq> (Inl (ValueError (actions_not_supported_msg (name (new Nautilus)))) :: error + unit)"
  by (simp add: install_action_def capabilities_new class_defs ACTIONS_def SCRIPTS_def)

section \<open>Installing a Nemo action\<close>

lemma tokens_NEMO_ACTION_TEMPLATE:
  "tokens NEMO_ACTION_TEMPLATE =
     map Text ''[Nemo Action]\<newline>Name='' @ [Braced ''name'']
     @ map Text ''\<newline>Comment='' @ [Braced ''comment'']
     @ map Text ''\<newline>Exec='' @ [Braced ''executable'']
     @ map Text '' %F\<newline>Selection=S\<newline>Extensions='' @ [Braced ''extensions'']
     @ map Text '';\<newline>Quote=double\<newline>''"
  by (simp add: NEMO_ACTION_TEMPLATE_def idstart_def idchar_def)

lemma concat_convert_Text: "concat (map (convert m) (map Text s)) = s"
  by (induction s) simp_all

lemma safe_substitute_NEMO_ACTION_TEMPLATE:
  "safe_substitute NEMO_ACTION_TEMPLATE m =
     ''[Nemo Action]\<newline>Name='' @ rendered m ''name''
     @ ''\<newline>Comment='' @ rendered m ''comment''
     @ ''\<newline>Exec='' @ rendered m ''executable''
     @ '' %F\<newline>Selection=S\<newline>Extensions='' @ rendered m ''extensions''
     @ '';\<newline>Quote=double\<newline>''"
  unfolding safe_substitute_def tokens_NEMO_ACTION_TEMPLATE
  by (simp only: map_append concat_append concat_convert_Text)
     (simp add: rendered_def)

lemma rendered_exec:
  "k \<noteq> ''exec'' \<Longrightarrow> rendered (m(''exec'' \<mapsto> v)) k = rendered m k"
  by (simp add: rendered_def)

lemma rendering:
  "safe_substitute NEMO_ACTION_TEMPLATE (options(''exec'' \<mapsto> v)) = nemo_action_file options"
  by (simp add: safe_substitute_NEMO_ACTION_TEMPLATE nemo_action_file_def rendered_exec)

text \<open>
  What \<open>install_action\<close> of Nemo does once the configuration directory is there, a name is
  given and the action file can be opened (\<open>q\<close> is the file that \<^verbatim>\<open>open\<close> reaches).
\<close>

lemma nemo_install_action_result:
  assumes conf: "is_dir (fs w) [''.local'', ''share'', ''nemo''] = Inr True"
    and nm: "options ''name'' = Some nm"
    and opn: "open_target (fs w)
               (joinpath [''.local'', ''share'', ''nemo'', ''actions''] (nm @ ''.nemo_action''))
              = Inr q"
  shows "install_action (new Nemo) source_path options w =
     (Inr (),
      (sys (SYS_open
             (joinpath [''.local'', ''share'', ''nemo'', ''actions''] (nm @ ''.nemo_action'')))
         (sys (SYS_stat [''.local'', ''share'', ''nemo'']) w))
        \<lparr>fs := (fs w)
           \<lparr>entries := AList.update q (Regular (nemo_action_file options)) (entries (fs w))\<rparr>\<rparr>)"
  unfolding nemo_install_action_unfold
  by (simp add: conf nm write_text_unfold opn rendering)




lemma joinpath_Rename:
  "joinpath [''.local'', ''share'', ''nemo'', ''actions''] (''Rename'' @ ''.nemo_action'')
     = [''.local'', ''share'', ''nemo'', ''actions'', ''Rename.nemo_action'']"
  by (simp add: joinpath_name)

lemma lstat_written_Rename:
  "lstat (home\<lparr>entries := AList.update (actions_dir @ [''Rename.nemo_action'']) nd (entries home)\<rparr>)
       [''.local'', ''share'', ''nemo'', ''actions'', ''Rename.nemo_action'']
     = Inr nd"
  by (cases nd)
     (simp_all add: lstat_def locate_def bad_string_def path_str_def is_absolute_def comps_def
        PATH_MAX_def NAME_MAX_def home_def actions_dir_def)



text \<open>
  C1.  Installing \<^verbatim>\<open>/home/u/tools/rename.sh\<close> as the Nemo action \<^verbatim>\<open>Rename\<close>, with a comment
  and extensions and no \<^verbatim>\<open>executable\<close> field: the method stores the script path under the key
  \<^verbatim>\<open>exec\<close>, the template asks for \<^verbatim>\<open>executable\<close>, and the written file keeps the placeholder
  in its \<^verbatim>\<open>Exec\<close> line.
\<close>

theorem nemo_action_exec_line_keeps_placeholder:
  "fst (install_action (new Nemo) rename_sh rename_fields (start home)) = Inr ()
   \<and> lstat (fs (snd (install_action (new Nemo) rename_sh rename_fields (start home))))
       [''.local'', ''share'', ''nemo'', ''actions'', ''Rename.nemo_action'']
     = Inr (Regular ''[Nemo Action]\<newline>Name=Rename\<newline>Comment=Batch rename\<newline>Exec=${executable} %F\<newline>Selection=S\<newline>Extensions=txt;\<newline>Quote=double\<newline>'')"
proof -
  have d: "is_dir (fs (start home)) [''.local'', ''share'', ''nemo''] = Inr True"
    by (simp add: start_def is_dir_home_config)
  have n: "rename_fields ''name'' = Some ''Rename''"
    by (simp add: rename_fields_def)
  have o: "open_target (fs (start home))
      (joinpath [''.local'', ''share'', ''nemo'', ''actions''] (''Rename'' @ ''.nemo_action''))
      = Inr (actions_dir @ [''Rename.nemo_action''])"
    by (simp only: start_def world.simps joinpath_Rename open_target_home_Rename)
  have f: "nemo_action_file rename_fields = ''[Nemo Action]\<newline>Name=Rename\<newline>Comment=Batch rename\<newline>Exec=${executable} %F\<newline>Selection=S\<newline>Extensions=txt;\<newline>Quote=double\<newline>''"
    by (simp add: nemo_action_file_def rendered_def rename_fields_def)
  note r = nemo_install_action_result
    [where options = rename_fields and nm = "''Rename''" and source_path = rename_sh, OF d n o]
  show ?thesis
    unfolding r by (simp add: start_def lstat_written_Rename f)
qed

section \<open>The entries of a directory\<close>

lemma listingD:
  "q \<in> set (listing F D) \<Longrightarrow> q = D @ [last q] \<and> q \<in> fst ` set (entries F)"
  by (auto simp: listing_def inside_def)

lemma listing_named: "wf_fs F \<Longrightarrow> q \<in> set (listing F D) \<Longrightarrow> valid_name (last q)"
  by (auto simp: wf_fs_def list_all_iff named_def listing_def)

lemma links_inD:
  "q \<in> set (links_in F D src)
   \<Longrightarrow> q \<in> set (listing F D) \<and> map_of (entries F) q = Some (Link src)"
  by (simp add: links_in_def)

lemma link_stored:
  assumes "wf_fs F" and "map_of (entries F) q = Some (Link t)"
  shows "bad_string (path_str t) = None"
proof -
  from assms(2) have "(q, Link t) \<in> set (entries F)"
    by (rule map_of_SomeD)
  then have "Link t \<in> snd ` set (entries F)"
    by force
  with assms(1) have "stored (Link t)"
    by (auto simp: wf_fs_def list_all_iff)
  then show ?thesis
    by (simp add: stored_def)
qed

lemma children_directory:
  "locate Follow F sp = Inr (D, Some Directory)
   \<Longrightarrow> children F sp = map (\<lambda>q. sp @ [last q]) (listing F D)"
  by (simp add: children_def)

text \<open>\<^verbatim>\<open>lstat\<close> on a path that \<^verbatim>\<open>glob\<close> yields finds the entry.\<close>

lemma locate_listed:
  assumes dir: "locate Follow F sp = Inr (D, Some Directory)"
    and sp: "short_relative sp"
    and wf: "wf_fs F"
    and q: "q \<in> set (listing F D)"
  shows "\<exists>nd. map_of (entries F) q = Some nd
            \<and> locate NoFollow F (sp @ [last q]) = Inr (q, Some nd)"
proof -
  from listingD [OF q] have eq: "q = D @ [last q]" and key: "q \<in> fst ` set (entries F)"
    by simp_all
  from key obtain nd where nd: "map_of (entries F) q = Some nd"
    by (cases "map_of (entries F) q") (auto simp: map_of_eq_None_iff)
  from locate_child [OF dir sp listing_named [OF wf q]] eq nd
  have "locate NoFollow F (sp @ [last q]) = Inr (q, Some nd)"
    by simp
  with nd show ?thesis by blast
qed

lemma lstat_listed:
  assumes dir: "locate Follow F sp = Inr (D, Some Directory)"
    and sp: "short_relative sp"
    and wf: "wf_fs F"
    and q: "q \<in> set (listing F D)"
  shows "\<exists>nd. map_of (entries F) q = Some nd \<and> lstat F (sp @ [last q]) = Inr nd"
  using locate_listed [OF assms] by (auto simp: lstat_def)

lemma lstat_children:
  assumes dir: "locate Follow F sp = Inr (D, Some Directory)"
    and sp: "short_relative sp"
    and wf: "wf_fs F"
  shows "\<forall>p\<in>set (children F sp). \<exists>nd. lstat F p = Inr nd"
  using lstat_listed [OF assms] by (auto simp: children_directory [OF dir])

lemma links_among_children:
  assumes dir: "locate Follow F sp = Inr (D, Some Directory)"
    and sp: "short_relative sp"
    and wf: "wf_fs F"
  shows "filter (\<lambda>p. lstat F p = Inr (Link src)) (children F sp)
       = map (\<lambda>q. sp @ [last q]) (links_in F D src)"
proof -
  have "filter ((\<lambda>p. lstat F p = Inr (Link src)) \<circ> (\<lambda>q. sp @ [last q])) (listing F D)
      = filter (\<lambda>q. map_of (entries F) q = Some (Link src)) (listing F D)"
  proof (rule filter_cong [OF refl])
    fix q assume "q \<in> set (listing F D)"
    from lstat_listed [OF dir sp wf this]
    show "((\<lambda>p. lstat F p = Inr (Link src)) \<circ> (\<lambda>q. sp @ [last q])) q
        = (map_of (entries F) q = Some (Link src))"
      by auto
  qed
  then show ?thesis
    by (simp add: children_directory [OF dir] filter_map links_in_def)
qed

section \<open>Resolution after an entry is added\<close>

lemma map_of_snoc:
  "map_of (E @ [(q, nd)]) k
     = (case map_of E k of None \<Rightarrow> if k = q then Some nd else None | Some v \<Rightarrow> Some v)"
  by (simp add: map_add_def split: option.splits)

text \<open>A walk that found an entry is not changed by a new entry where none was.\<close>

lemma walk_add_entry:
  "map_of E q = None \<Longrightarrow> walk md n E cur cs = Inr (r, Some x, m)
   \<Longrightarrow> walk md n (E @ [(q, nd)]) cur cs = Inr (r, Some x, m)"
proof (induction md n E cur cs arbitrary: r x m rule: walk.induct)
  case (1 md n E cur)
  then show ?case by simp
next
  case (2 md n E cur c cs)
  note free = "2.prems"(1) and res = "2.prems"(2)
  show ?case
  proof (cases "c = ''..''")
    case True
    with res have "walk md n E (butlast cur) cs = Inr (r, Some x, m)"
      by simp
    from "2.IH"(1) [OF True free this] True show ?thesis
      by simp
  next
    case False
    note c = this
    show ?thesis
    proof (cases "NAME_MAX < length c")
      case True
      with c res show ?thesis by simp
    next
      case False
      note len = this
      show ?thesis
      proof (cases "map_of E (cur @ [c])")
        case None
        with c len res show ?thesis
          by (simp split: if_splits)
      next
        case (Some nd')
        then have look: "map_of (E @ [(q, nd)]) (cur @ [c]) = Some nd'"
          by (simp add: map_of_snoc del: map_of_append)
        show ?thesis
        proof (cases nd')
          case Directory
          with c len Some res have "walk md n E (cur @ [c]) cs = Inr (r, Some x, m)"
            by simp
          from "2.IH"(2) [OF c len Some Directory free this] c len look Directory
          show ?thesis
            by (simp del: map_of_append)
        next
          case (Regular y)
          with c len Some res look show ?thesis
            by (simp del: map_of_append split: if_splits)
        next
          case (Link t)
          show ?thesis
          proof (cases "cs = [] \<and> md = NoFollow")
            case True
            with c len Some res look Link show ?thesis
              by (auto simp del: map_of_append)
          next
            case False
            note follow = this
            show ?thesis
            proof (cases n)
              case 0
              with c len Some res Link follow show ?thesis
                by auto
            next
              case (Suc k)
              with c len Some res Link follow
              have "walk md k E (if is_absolute t then [] else cur) (comps t @ cs)
                  = Inr (r, Some x, m)"
                by auto
              from "2.IH"(3) [OF c len Some Link follow Suc free this] c len look Link follow Suc
              show ?thesis
                by (auto simp del: map_of_append)
            qed
          qed
        qed
      qed
    qed
  qed
qed

lemma locate_add_entry:
  assumes "map_of (entries F) q = None" and "locate md F p = Inr (r, Some x)"
  shows "locate md (F\<lparr>entries := entries F @ [(q, nd)]\<rparr>) p = Inr (r, Some x)"
proof -
  from assms(2) obtain m where
    "walk md symlink_limit (entries F) (if is_absolute p then [] else cwd F) (comps p)
       = Inr (r, Some x, m)"
    and "bad_string (path_str p) = None"
    by (auto simp: locate_def split: option.splits sum.splits)
  with walk_add_entry [OF assms(1) this(1), of nd] show ?thesis
    by (cases "is_absolute p") (simp_all add: locate_def del: walk.simps)
qed

section \<open>The loop over the scripts directory\<close>

text \<open>One round of the loop, by what the entry is.\<close>

lemma scan_links_skip:
  "lstat (fs w) p = Inr nd \<Longrightarrow> nd \<noteq> Link src
   \<Longrightarrow> scan_links src tgt force (p # ps) w =
       scan_links src tgt force ps
         (if is_symlink (fs w) p = Inr True then sys (SYS_readlink p) (sys (SYS_lstat p) w)
          else sys (SYS_lstat p) w)"
  by (cases nd) (simp_all add: path_is_symlink_def is_symlink_def path_readlink_def readlink_def)

lemma scan_links_warn:
  "lstat (fs w) p = Inr (Link src)
   \<Longrightarrow> scan_links src tgt False (p # ps) w =
       scan_links src tgt False ps
         (logging WARNING (already_linked_msg p) (sys (SYS_readlink p) (sys (SYS_lstat p) w)))"
  by (simp add: path_is_symlink_def is_symlink_def path_readlink_def readlink_def)

lemma scan_links_rename:
  "lstat (fs w) p = Inr (Link src)
   \<Longrightarrow> fst (scan_links src tgt True (p # ps) w) =
         (case fs_rename (fs w) p tgt of Inl e \<Rightarrow> Inl e | Inr F' \<Rightarrow> Inr True)
       \<and> fs (snd (scan_links src tgt True (p # ps) w)) =
         (case fs_rename (fs w) p tgt of Inl e \<Rightarrow> fs w | Inr F' \<Rightarrow> F')
       \<and> logged (snd (scan_links src tgt True (p # ps) w)) = logged w"
  by (auto simp: path_is_symlink_def is_symlink_def path_readlink_def readlink_def
      os_rename_unfold split: sum.splits)

text \<open>Without the flag the loop runs to its end and warns once for every link to the source.\<close>

lemma scan_links_no_force:
  "\<forall>p\<in>set ps. \<exists>nd. lstat (fs w) p = Inr nd
   \<Longrightarrow> fst (scan_links src tgt False ps w) = Inr False
     \<and> fs (snd (scan_links src tgt False ps w)) = fs w
     \<and> logged (snd (scan_links src tgt False ps w)) =
         logged w @ map (\<lambda>p. (WARNING, already_linked_msg p))
                      (filter (\<lambda>p. lstat (fs w) p = Inr (Link src)) ps)"
proof (induction ps arbitrary: w)
  case Nil
  show ?case by simp
next
  case (Cons p ps)
  from Cons.prems obtain nd where nd: "lstat (fs w) p = Inr nd"
    by auto
  from Cons.prems have rest: "\<forall>p\<in>set ps. \<exists>nd. lstat (fs w) p = Inr nd"
    by simp
  show ?case
  proof (cases "nd = Link src")
    case True
    define w1 where
      "w1 = logging WARNING (already_linked_msg p) (sys (SYS_readlink p) (sys (SYS_lstat p) w))"
    have w1: "fs w1 = fs w" "logged w1 = logged w @ [(WARNING, already_linked_msg p)]"
      by (simp_all add: w1_def)
    have step: "scan_links src tgt False (p # ps) w = scan_links src tgt False ps w1"
      unfolding w1_def using nd True by (intro scan_links_warn) simp
    show ?thesis
      unfolding step using Cons.IH [of w1] rest nd True by (simp add: w1)
  next
    case False
    define w1 where
      "w1 = (if is_symlink (fs w) p = Inr True then sys (SYS_readlink p) (sys (SYS_lstat p) w)
             else sys (SYS_lstat p) w)"
    have w1: "fs w1 = fs w" "logged w1 = logged w"
      by (simp_all add: w1_def)
    have step: "scan_links src tgt False (p # ps) w = scan_links src tgt False ps w1"
      unfolding w1_def by (rule scan_links_skip [OF nd False])
    show ?thesis
      unfolding step using Cons.IH [of w1] rest nd False by (simp add: w1)
  qed
qed

text \<open>With no link to the source among the entries the loop changes nothing, flag or not.\<close>

lemma scan_links_no_match:
  "\<forall>p\<in>set ps. \<exists>nd. lstat (fs w) p = Inr nd
   \<Longrightarrow> filter (\<lambda>p. lstat (fs w) p = Inr (Link src)) ps = []
   \<Longrightarrow> fst (scan_links src tgt force ps w) = Inr False
       \<and> fs (snd (scan_links src tgt force ps w)) = fs w
       \<and> logged (snd (scan_links src tgt force ps w)) = logged w"
proof (induction ps arbitrary: w)
  case Nil
  show ?case by simp
next
  case (Cons p ps)
  from Cons.prems(1) obtain nd where nd: "lstat (fs w) p = Inr nd"
    by auto
  from Cons.prems have all: "\<forall>p\<in>set ps. \<exists>nd. lstat (fs w) p = Inr nd"
    and np: "nd \<noteq> Link src"
    and rest: "filter (\<lambda>p. lstat (fs w) p = Inr (Link src)) ps = []"
    using nd by (auto split: if_splits)
  define w1 where
    "w1 = (if is_symlink (fs w) p = Inr True then sys (SYS_readlink p) (sys (SYS_lstat p) w)
           else sys (SYS_lstat p) w)"
  have w1: "fs w1 = fs w" "logged w1 = logged w"
    by (simp_all add: w1_def)
  have step: "scan_links src tgt force (p # ps) w = scan_links src tgt force ps w1"
    unfolding w1_def by (rule scan_links_skip [OF nd np])
  show ?case
    unfolding step using Cons.IH [of w1] all rest by (simp add: w1)
qed

text \<open>With the flag the first link to the source is renamed, and the method returns.\<close>

lemma scan_links_force:
  "\<forall>p\<in>set ps. \<exists>nd. lstat (fs w) p = Inr nd
   \<Longrightarrow> filter (\<lambda>p. lstat (fs w) p = Inr (Link src)) ps = m # ms
   \<Longrightarrow> fst (scan_links src tgt True ps w) =
         (case fs_rename (fs w) m tgt of Inl e \<Rightarrow> Inl e | Inr F' \<Rightarrow> Inr True)
       \<and> fs (snd (scan_links src tgt True ps w)) =
         (case fs_rename (fs w) m tgt of Inl e \<Rightarrow> fs w | Inr F' \<Rightarrow> F')
       \<and> logged (snd (scan_links src tgt True ps w)) = logged w"
proof (induction ps arbitrary: w)
  case Nil
  then show ?case by simp
next
  case (Cons p ps)
  from Cons.prems(1) obtain nd where nd: "lstat (fs w) p = Inr nd"
    by auto
  from Cons.prems(1) have all: "\<forall>p\<in>set ps. \<exists>nd. lstat (fs w) p = Inr nd"
    by simp
  show ?case
  proof (cases "nd = Link src")
    case True
    with nd have l: "lstat (fs w) p = Inr (Link src)" by simp
    with Cons.prems(2) have "m = p" by simp
    with scan_links_rename [OF l, of tgt ps] show ?thesis by (simp del: scan_links.simps)
  next
    case False
    with Cons.prems(2) nd
    have rest: "filter (\<lambda>p. lstat (fs w) p = Inr (Link src)) ps = m # ms"
      by simp
    define w1 where
      "w1 = (if is_symlink (fs w) p = Inr True then sys (SYS_readlink p) (sys (SYS_lstat p) w)
             else sys (SYS_lstat p) w)"
    have w1: "fs w1 = fs w" "logged w1 = logged w"
      by (simp_all add: w1_def)
    have step: "scan_links src tgt True (p # ps) w = scan_links src tgt True ps w1"
      unfolding w1_def by (rule scan_links_skip [OF nd False])
    show ?thesis
      unfolding step using Cons.IH [of w1] all rest by (simp add: w1 cong: sum.case_cong)
  qed
qed

section \<open>From the call to the loop\<close>

lemma check_scripts_support_passes:
  assumes c: "has_install_script c"
    and sp: "scripts_path (new c) = Some sp"
    and dir: "locate Follow (fs w) sp = Inr (D, Some Directory)"
  shows "check_scripts_support (new c) w = (Inr (), sys (SYS_stat (config_path (new c))) w)"
    and "short_relative sp"
proof -
  from sp new_with_install_script(1) [OF c]
  have sp_eq: "sp = config_path (new c) @ [''scripts'']"
    by simp
  from dir locate_parent [OF _ new_with_install_script(3) [OF c]]
  obtain D' where "locate Follow (fs w) (config_path (new c)) = Inr (D', Some Directory)"
    unfolding sp_eq by blast
  then have "is_dir (fs w) (config_path (new c)) = Inr True"
    by (rule locate_is_dir)
  then show "check_scripts_support (new c) w = (Inr (), sys (SYS_stat (config_path (new c))) w)"
    using new_with_install_script(2) [OF c]
    by (simp add: check_scripts_support_def check_installation_def path_is_dir_def)
  show "short_relative sp"
    unfolding sp_eq by (rule new_with_install_script(4) [OF c])
qed

lemma install_script_loop:
  assumes c: "has_install_script c"
    and sp: "scripts_path (new c) = Some sp"
    and dir: "locate Follow (fs w) sp = Inr (D, Some Directory)"
    and dn: "display_name options = Some dn"
    and free: "exists (fs w) (joinpath sp dn) = Inr False"
  shows "install_script (new c) src options w =
     (case scan_links src (joinpath sp dn) (force_rename_existing options)
             (children (fs w) sp) (before_scan (new c) sp (joinpath sp dn) w) of
        (Inl e, w7) \<Rightarrow> (Inl e, w7)
      | (Inr returned, w7) \<Rightarrow>
          if returned then (Inr (), w7) else os_symlink src (joinpath sp dn) w7)"
  using c dn free locate_is_dir [OF dir]
  by (simp add: install_script_def check_scripts_support_passes(1) [OF c sp dir] sp
      install_script_body_def path_is_dir_def path_exists_def path_glob_def before_scan_def
      Let_def)

text \<open>The two ways through the loop, for any display name.\<close>

lemma install_script_renaming:
  assumes c: "has_install_script c"
    and wf: "wf_fs (fs w)"
    and sp: "scripts_path (new c) = Some sp"
    and dir: "locate Follow (fs w) sp = Inr (D, Some Directory)"
    and dn: "display_name options = Some dn"
    and free: "exists (fs w) (joinpath sp dn) = Inr False"
    and force: "force_rename_existing options"
    and found: "links_in (fs w) D src = m # ms"
  shows "fst (install_script (new c) src options w)
       = (case fs_rename (fs w) (sp @ [last m]) (joinpath sp dn) of
            Inl e \<Rightarrow> Inl e | Inr F' \<Rightarrow> Inr ())"
    and "fs (snd (install_script (new c) src options w))
       = (case fs_rename (fs w) (sp @ [last m]) (joinpath sp dn) of
            Inl e \<Rightarrow> fs w | Inr F' \<Rightarrow> F')"
proof -
  let ?tgt = "joinpath sp dn"
  let ?w6 = "before_scan (new c) sp ?tgt w"
  let ?scan = "scan_links src ?tgt True (children (fs w) sp) ?w6"
  note short = check_scripts_support_passes(2) [OF c sp dir]
  have w6: "fs ?w6 = fs w"
    by (simp add: before_scan_def)
  have all: "\<forall>p\<in>set (children (fs w) sp). \<exists>nd. lstat (fs ?w6) p = Inr nd"
    unfolding w6 by (rule lstat_children [OF dir short wf])
  have "filter (\<lambda>p. lstat (fs ?w6) p = Inr (Link src)) (children (fs w) sp)
      = (sp @ [last m]) # map (\<lambda>q. sp @ [last q]) ms"
    unfolding w6 by (simp add: links_among_children [OF dir short wf] found)
  from scan_links_force [OF all this, of ?tgt]
  have scan: "fst ?scan = (case fs_rename (fs w) (sp @ [last m]) ?tgt of
                             Inl e \<Rightarrow> Inl e | Inr F' \<Rightarrow> Inr True)"
    "fs (snd ?scan) = (case fs_rename (fs w) (sp @ [last m]) ?tgt of
                         Inl e \<Rightarrow> fs w | Inr F' \<Rightarrow> F')"
    by (simp_all add: w6 cong: sum.case_cong)
  show "fst (install_script (new c) src options w)
       = (case fs_rename (fs w) (sp @ [last m]) ?tgt of Inl e \<Rightarrow> Inl e | Inr F' \<Rightarrow> Inr ())"
    and "fs (snd (install_script (new c) src options w))
       = (case fs_rename (fs w) (sp @ [last m]) ?tgt of Inl e \<Rightarrow> fs w | Inr F' \<Rightarrow> F')"
    unfolding install_script_loop [OF c sp dir dn free]
    using scan force by (cases ?scan; simp split: sum.splits)+
qed

lemma install_script_linking:
  assumes c: "has_install_script c"
    and wf: "wf_fs (fs w)"
    and sp: "scripts_path (new c) = Some sp"
    and dir: "locate Follow (fs w) sp = Inr (D, Some Directory)"
    and dn: "display_name options = Some dn"
    and free: "exists (fs w) (joinpath sp dn) = Inr False"
    and no_rename: "\<not> (force_rename_existing options \<and> links_in (fs w) D src \<noteq> [])"
  shows "fst (install_script (new c) src options w)
       = (case fs_symlink (fs w) src (joinpath sp dn) of Inl e \<Rightarrow> Inl e | Inr F' \<Rightarrow> Inr ())"
    and "fs (snd (install_script (new c) src options w))
       = (case fs_symlink (fs w) src (joinpath sp dn) of Inl e \<Rightarrow> fs w | Inr F' \<Rightarrow> F')"
    and "logged (snd (install_script (new c) src options w))
       = logged w @ (DEBUG, ''Target path: '' @ path_str (joinpath sp dn))
           # map (\<lambda>q. (WARNING, already_linked_msg (sp @ [last q]))) (links_in (fs w) D src)"
proof -
  let ?tgt = "joinpath sp dn"
  let ?w6 = "before_scan (new c) sp ?tgt w"
  let ?force = "force_rename_existing options"
  let ?scan = "scan_links src ?tgt ?force (children (fs w) sp) ?w6"
  let ?warnings = "map (\<lambda>q. (WARNING, already_linked_msg (sp @ [last q]))) (links_in (fs w) D src)"
  note short = check_scripts_support_passes(2) [OF c sp dir]
  have w6: "fs ?w6 = fs w" "logged ?w6 = logged w @ [(DEBUG, ''Target path: '' @ path_str ?tgt)]"
    by (simp_all add: before_scan_def)
  have all: "\<forall>p\<in>set (children (fs w) sp). \<exists>nd. lstat (fs ?w6) p = Inr nd"
    unfolding w6 by (rule lstat_children [OF dir short wf])
  have links: "filter (\<lambda>p. lstat (fs w) p = Inr (Link src)) (children (fs w) sp)
      = map (\<lambda>q. sp @ [last q]) (links_in (fs w) D src)"
    by (rule links_among_children [OF dir short wf])
  have scan: "fst ?scan = Inr False \<and> fs (snd ?scan) = fs w
      \<and> logged (snd ?scan) = logged w @ (DEBUG, ''Target path: '' @ path_str ?tgt) # ?warnings"
  proof (cases ?force)
    case True
    with no_rename have none: "links_in (fs w) D src = []"
      by simp
    with links have "filter (\<lambda>p. lstat (fs ?w6) p = Inr (Link src)) (children (fs w) sp) = []"
      by (simp add: w6)
    from scan_links_no_match [OF all this, of ?tgt ?force] show ?thesis
      by (simp add: w6 none)
  next
    case False
    with scan_links_no_force [OF all, of src ?tgt] show ?thesis
      by (simp add: w6 links comp_def)
  qed
  show "fst (install_script (new c) src options w)
       = (case fs_symlink (fs w) src ?tgt of Inl e \<Rightarrow> Inl e | Inr F' \<Rightarrow> Inr ())"
    and "fs (snd (install_script (new c) src options w))
       = (case fs_symlink (fs w) src ?tgt of Inl e \<Rightarrow> fs w | Inr F' \<Rightarrow> F')"
    and "logged (snd (install_script (new c) src options w))
       = logged w @ (DEBUG, ''Target path: '' @ path_str ?tgt) # ?warnings"
    unfolding install_script_loop [OF c sp dir dn free]
    using scan by (cases ?scan; simp add: os_symlink_unfold split: sum.splits)+
qed

text \<open>The target path for a display name that is one file name.\<close>

lemma target_located:
  assumes dir: "locate Follow F sp = Inr (D, Some Directory)"
    and sp: "short_relative sp"
    and name: "valid_name dn"
  shows "locate NoFollow F (joinpath sp dn) = Inr (D @ [dn], map_of (entries F) (D @ [dn]))"
  by (simp add: joinpath_valid_name [OF name] locate_child [OF dir sp name])

lemma target_free:
  assumes dir: "locate Follow F sp = Inr (D, Some Directory)"
    and sp: "short_relative sp"
    and name: "valid_name dn"
    and free: "lstat F (joinpath sp dn) = Inl (OSError ENOENT (path_str (joinpath sp dn)) None)"
  shows "map_of (entries F) (D @ [dn]) = None"
    and "locate NoFollow F (joinpath sp dn) = Inr (D @ [dn], None)"
    and "exists F (joinpath sp dn) = Inr False"
proof -
  from free target_located [OF dir sp name]
  show none: "map_of (entries F) (D @ [dn]) = None"
    by (cases "map_of (entries F) (D @ [dn])") (simp_all add: lstat_def)
  with target_located [OF dir sp name]
  show "locate NoFollow F (joinpath sp dn) = Inr (D @ [dn], None)"
    by simp
  from locate_child_missing [OF dir sp name none, of Follow]
  show "exists F (joinpath sp dn) = Inr False"
    by (simp add: joinpath_valid_name [OF name] locate_missing_exists)
qed

section \<open>The source is already linked, and the link is renamed\<close>

lemma fs_rename_link:
  assumes "locate NoFollow F p = Inr (qs, Some (Link src))"
    and "locate NoFollow F tgt = Inr (qd, x)"
    and "x \<noteq> Some Directory"
  shows "fs_rename F p tgt
       = Inr (if qs = qd then F
              else F\<lparr>entries := AList.update qd (Link src) (AList.delete qs (entries F))\<rparr>)"
  using assms by (auto simp: fs_rename_def split: option.splits node.splits)

lemma keys_after_rename:
  assumes "map_of E tq = None"
  shows "map fst (AList.update tq nd (AList.delete old E)) = removeAll old (map fst E) @ [tq]"
proof -
  from assms have "tq \<notin> fst ` set E"
    by (simp add: map_of_eq_None_iff)
  then show ?thesis
    by (simp add: update_keys delete_keys)
qed

lemma links_in_after_rename:
  assumes one: "links_in F D src = [old]"
    and free: "map_of (entries F) (D @ [dn]) = None"
  shows "links_in
           (F\<lparr>entries := AList.update (D @ [dn]) (Link src) (AList.delete old (entries F))\<rparr>)
           D src
       = [D @ [dn]]"
proof -
  let ?tq = "D @ [dn]"
  let ?E = "entries F"
  let ?E' = "AList.update ?tq (Link src) (AList.delete old ?E)"
  have look: "map_of ?E' q = map_of ?E q" if "q \<noteq> old" "q \<noteq> ?tq" for q
    using that by (simp add: update_conv' delete_conv')
  have tq_keys: "?tq \<notin> set (map fst ?E)"
    using free by (simp add: map_of_eq_None_iff)
  have "filter (\<lambda>q. map_of ?E' q = Some (Link src))
          (filter (inside D) (removeAll old (map fst ?E)))
      = filter (\<lambda>q. map_of ?E q = Some (Link src))
          (filter (inside D) (removeAll old (map fst ?E)))"
  proof (rule filter_cong [OF refl])
    fix q assume "q \<in> set (filter (inside D) (removeAll old (map fst ?E)))"
    then have "q \<noteq> old" "q \<in> set (map fst ?E)" by auto
    with tq_keys have "q \<noteq> old" "q \<noteq> ?tq" by blast+
    then show "(map_of ?E' q = Some (Link src)) = (map_of ?E q = Some (Link src))"
      by (simp add: look)
  qed
  also have "\<dots> = removeAll old (links_in F D src)"
    by (simp add: links_in_def listing_def filter_removeAll)
  also have "\<dots> = []"
    by (simp add: one)
  finally have rest: "filter (\<lambda>q. map_of ?E' q = Some (Link src))
      (filter (inside D) (removeAll old (map fst ?E))) = []" .
  have "map_of ?E' ?tq = Some (Link src)"
    by (simp add: update_conv')
  with rest show ?thesis
    by (simp add: links_in_def listing_def keys_after_rename [OF free] inside_def)
qed

text \<open>
  C3.  The scripts directory is there (at the location \<open>D\<close>), exactly one symbolic link in it
  points at the source, nothing is at the target path, \<open>force_rename_existing\<close> is set, and
  the display name is one file name: the call succeeds, the file system is the old one with
  that link moved to the display name in the directory, no entry is added, and the link there
  is afterwards the one link to the source in the directory.
\<close>

theorem install_script_renames_existing_link:
  assumes c: "has_install_script c"
    and wf: "wf_fs (fs w)"
    and sp: "scripts_path (new c) = Some sp"
    and dir: "locate Follow (fs w) sp = Inr (D, Some Directory)"
    and dn: "display_name options = Some dn"
    and name: "valid_name dn"
    and force: "force_rename_existing options"
    and one: "links_in (fs w) D src = [old]"
    and free: "lstat (fs w) (joinpath sp dn)
             = Inl (OSError ENOENT (path_str (joinpath sp dn)) None)"
  shows "fst (install_script (new c) src options w) = Inr ()
    \<and> fs (snd (install_script (new c) src options w))
        = (fs w)\<lparr>entries :=
             AList.update (D @ [dn]) (Link src) (AList.delete old (entries (fs w)))\<rparr>
    \<and> old \<noteq> D @ [dn]
    \<and> map_of (entries (fs (snd (install_script (new c) src options w)))) old = None
    \<and> map_of (entries (fs (snd (install_script (new c) src options w)))) (D @ [dn])
        = Some (Link src)
    \<and> links_in (fs (snd (install_script (new c) src options w))) D src = [D @ [dn]]
    \<and> length (entries (fs (snd (install_script (new c) src options w))))
        = length (entries (fs w))"
proof -
  let ?tgt = "joinpath sp dn"
  let ?tq = "D @ [dn]"
  let ?E = "entries (fs w)"
  let ?E' = "AList.update ?tq (Link src) (AList.delete old ?E)"
  let ?F' = "(fs w)\<lparr>entries := ?E'\<rparr>"
  note short = check_scripts_support_passes(2) [OF c sp dir]
  note tgt = target_free [OF dir short name free]
  have old: "old \<in> set (listing (fs w) D)" "map_of ?E old = Some (Link src)"
    using links_inD [of old "fs w" D src] one by simp_all
  with tgt(1) have ne: "old \<noteq> ?tq" by auto
  from locate_listed [OF dir short wf old(1)] old(2)
  have "locate NoFollow (fs w) (sp @ [last old]) = Inr (old, Some (Link src))"
    by simp
  from fs_rename_link [OF this tgt(2)] ne
  have ren: "fs_rename (fs w) (sp @ [last old]) ?tgt = Inr ?F'"
    by simp
  note r = install_script_renaming [OF c wf sp dir dn tgt(3) force one, unfolded ren sum.case]
  have gone: "map_of ?E' old = None"
    using ne by (simp add: update_conv' delete_conv')
  have there: "map_of ?E' ?tq = Some (Link src)"
    by (simp add: update_conv')
  have len: "length ?E' = length ?E"
  proof -
    have "map_of (AList.delete old ?E) ?tq = None"
      using tgt(1) by (simp add: delete_conv')
    then have "length ?E' = Suc (length (AList.delete old ?E))"
      by (simp add: update_absent)
    also have "\<dots> = length ?E"
      using wf old(2) by (intro length_delete) (simp_all add: wf_fs_def)
    finally show ?thesis .
  qed
  show ?thesis
    unfolding r using ne gone there len links_in_after_rename [OF one tgt(1)] by simp
qed

lemmas resolve_defs =
  locate_def bad_string_def path_str_def is_absolute_def comps_def PATH_MAX_def NAME_MAX_def
  symlink_limit_def

lemma locate_scripts:
  "locate Follow home nemo_scripts = Inr (scripts_dir, Some Directory)"
  "locate Follow home_script nemo_scripts = Inr (scripts_dir, Some Directory)"
  "locate Follow linked nemo_scripts = Inr (scripts_dir, Some Directory)"
  "locate Follow dangling nemo_scripts = Inr (scripts_dir, Some Directory)"
  "locate Follow linked_and_dangling nemo_scripts = Inr (scripts_dir, Some Directory)"
  by (simp_all add: resolve_defs example_defs)

lemma joinpath_examples:
  "joinpath nemo_scripts ''Batch Rename'' = nemo_scripts @ [''Batch Rename'']"
  "joinpath nemo_scripts ''a/b'' = nemo_scripts @ [''a'', ''b'']"
  by (simp_all add: joinpath_def Path_def root_of_def is_absolute_def)

lemma links_in_examples:
  "links_in home scripts_dir rename_sh = []"
  "links_in linked scripts_dir rename_sh = [old_link]"
  "links_in dangling scripts_dir rename_sh = [batch_rename]"
  "links_in linked_and_dangling scripts_dir rename_sh = [old_link]"
  "links_in relinked scripts_dir rename_sh = [batch_rename]"
  by (simp_all add: links_in_def listing_def inside_def example_defs)

lemma lstat_Batch_Rename:
  "lstat home (nemo_scripts @ [''Batch Rename''])
     = Inl (OSError ENOENT ''.local/share/nemo/scripts/Batch Rename'' None)"
  "lstat linked (nemo_scripts @ [''Batch Rename''])
     = Inl (OSError ENOENT ''.local/share/nemo/scripts/Batch Rename'' None)"
  "lstat dangling (nemo_scripts @ [''Batch Rename'']) = Inr (Link rename_sh)"
  "lstat linked_and_dangling (nemo_scripts @ [''Batch Rename'']) = Inr (Link [''/'', ''gone''])"
  "lstat relinked (nemo_scripts @ [''Batch Rename'']) = Inr (Link rename_sh)"
  by (simp_all add: lstat_def resolve_defs example_defs)

lemma lstat_Old_Name:
  "lstat linked (nemo_scripts @ [''Old Name'']) = Inr (Link rename_sh)"
  "lstat relinked (nemo_scripts @ [''Old Name''])
     = Inl (OSError ENOENT ''.local/share/nemo/scripts/Old Name'' None)"
  by (simp_all add: lstat_def resolve_defs example_defs)

lemma lstat_a_b:
  "lstat linked (nemo_scripts @ [''a'', ''b''])
     = Inl (OSError ENOENT ''.local/share/nemo/scripts/a/b'' None)"
  "exists linked (nemo_scripts @ [''a'', ''b'']) = Inr False"
  by (simp_all add: lstat_def exists_def stat_def ignored_def resolve_defs example_defs)

lemma renamed_linked:
  "linked\<lparr>entries :=
      AList.update (scripts_dir @ [''Batch Rename'']) (Link rename_sh)
        (AList.delete old_link (entries linked))\<rparr>
     = relinked"
  by (simp add: example_defs)

theorem install_script_renames_Old_Name:
  "has_install_script Nemo \<and> wf_fs (fs (start linked))
   \<and> locate Follow (fs (start linked)) nemo_scripts = Inr (scripts_dir, Some Directory)
   \<and> valid_name ''Batch Rename''
   \<and> links_in (fs (start linked)) scripts_dir rename_sh = [old_link]
   \<and> lstat (fs (start linked)) (joinpath nemo_scripts ''Batch Rename'')
       = Inl (OSError ENOENT ''.local/share/nemo/scripts/Batch Rename'' None)
   \<and> fst (install_script (new Nemo) rename_sh (renaming ''Batch Rename'') (start linked)) = Inr ()
   \<and> fs (snd (install_script (new Nemo) rename_sh (renaming ''Batch Rename'') (start linked)))
       = relinked
   \<and> links_in relinked scripts_dir rename_sh = [batch_rename]
   \<and> lstat relinked (nemo_scripts @ [''Batch Rename'']) = Inr (Link rename_sh)
   \<and> lstat relinked (nemo_scripts @ [''Old Name''])
       = Inl (OSError ENOENT ''.local/share/nemo/scripts/Old Name'' None)
   \<and> length (entries relinked) = length (entries linked)"
proof -
  have wf: "wf_fs (fs (start linked))"
    by (simp add: start_def wf_fs_examples)
  have dir: "locate Follow (fs (start linked)) nemo_scripts = Inr (scripts_dir, Some Directory)"
    by (simp add: start_def locate_scripts)
  have dn: "display_name (renaming ''Batch Rename'') = Some ''Batch Rename''"
    by (simp add: renaming_def)
  have force: "force_rename_existing (renaming ''Batch Rename'')"
    by (simp add: renaming_def)
  have one: "links_in (fs (start linked)) scripts_dir rename_sh = [old_link]"
    by (simp add: start_def links_in_examples)
  have free: "lstat (fs (start linked)) (joinpath nemo_scripts ''Batch Rename'')
      = Inl (OSError ENOENT (path_str (joinpath nemo_scripts ''Batch Rename'')) None)"
    by (simp add: start_def joinpath_examples lstat_Batch_Rename path_str_examples)
  note t = install_script_renames_existing_link
    [OF has_install_script_Nemo wf scripts_path_Nemo dir dn valid_name_Batch_Rename force one free]
  have fs0: "fs (start linked) = linked"
    by (simp add: start_def)
  from t have r: "fst (install_script (new Nemo) rename_sh (renaming ''Batch Rename'')
        (start linked)) = Inr ()"
    "fs (snd (install_script (new Nemo) rename_sh (renaming ''Batch Rename'') (start linked)))
        = relinked"
    unfolding fs0 renamed_linked by blast+
  from t have "length (entries (fs (snd (install_script (new Nemo) rename_sh
      (renaming ''Batch Rename'') (start linked))))) = length (entries (fs (start linked)))"
    by blast
  then have len: "length (entries relinked) = length (entries linked)"
    unfolding r(2) fs0 .
  from t have "links_in (fs (snd (install_script (new Nemo) rename_sh
      (renaming ''Batch Rename'') (start linked)))) scripts_dir rename_sh
      = [scripts_dir @ [''Batch Rename'']]"
    by blast
  then have links: "links_in relinked scripts_dir rename_sh = [batch_rename]"
    unfolding r(2) by (simp add: scripts_dir_def batch_rename_def)
  from free have free': "lstat (fs (start linked)) (joinpath nemo_scripts ''Batch Rename'')
       = Inl (OSError ENOENT ''.local/share/nemo/scripts/Batch Rename'' None)"
    by (simp only: joinpath_examples path_str_examples)
  from has_install_script_Nemo wf dir valid_name_Batch_Rename one free' r links len
    lstat_Batch_Rename(5) lstat_Old_Name(2)
  show ?thesis
    by (simp only: simp_thms)
qed

text \<open>
  The display name \<^verbatim>\<open>a/b\<close>, with the script linked as \<^verbatim>\<open>Old Name\<close> and no directory \<^verbatim>\<open>a\<close>
  in the scripts directory: nothing is at the target path, the link is found, and
  \<^verbatim>\<open>os.rename\<close> fails with \<open>ENOENT\<close>; the link keeps its name.
\<close>

theorem install_script_rename_into_missing_directory:
  "wf_fs linked
   \<and> locate Follow linked nemo_scripts = Inr (scripts_dir, Some Directory)
   \<and> links_in linked scripts_dir rename_sh = [old_link]
   \<and> lstat linked (joinpath nemo_scripts ''a/b'')
       = Inl (OSError ENOENT (path_str (joinpath nemo_scripts ''a/b'')) None)
   \<and> fst (install_script (new Nemo) rename_sh (renaming ''a/b'') (start linked))
       = Inl (OSError ENOENT ''.local/share/nemo/scripts/Old Name''
                (Some ''.local/share/nemo/scripts/a/b''))
   \<and> fs (snd (install_script (new Nemo) rename_sh (renaming ''a/b'') (start linked))) = linked"
proof -
  have wf: "wf_fs (fs (start linked))"
    by (simp add: start_def wf_fs_examples)
  have dir: "locate Follow (fs (start linked)) nemo_scripts = Inr (scripts_dir, Some Directory)"
    by (simp add: start_def locate_scripts)
  have dn: "display_name (renaming ''a/b'') = Some ''a/b''"
    by (simp add: renaming_def)
  have force: "force_rename_existing (renaming ''a/b'')"
    by (simp add: renaming_def)
  have one: "links_in (fs (start linked)) scripts_dir rename_sh = old_link # []"
    by (simp add: start_def links_in_examples)
  have free: "exists (fs (start linked)) (joinpath nemo_scripts ''a/b'') = Inr False"
    by (simp add: start_def joinpath_examples lstat_a_b)
  have str: "path_str (nemo_scripts @ [''a'', ''b'']) = ''.local/share/nemo/scripts/a/b''"
    by (simp add: path_str_def is_absolute_def nemo_scripts_def)
  have "fs_rename linked (nemo_scripts @ [''Old Name'']) (nemo_scripts @ [''a'', ''b''])
      = Inl (OSError ENOENT ''.local/share/nemo/scripts/Old Name''
               (Some ''.local/share/nemo/scripts/a/b''))"
    by (simp add: fs_rename_def resolve_defs example_defs)
  then have ren: "fs_rename (fs (start linked)) (nemo_scripts @ [last old_link])
      (joinpath nemo_scripts ''a/b'')
      = Inl (OSError ENOENT ''.local/share/nemo/scripts/Old Name''
               (Some ''.local/share/nemo/scripts/a/b''))"
    by (simp add: start_def joinpath_examples old_link_def)
  note r = install_script_renaming
    [OF has_install_script_Nemo wf scripts_path_Nemo dir dn free force one,
     unfolded ren sum.case]
  have fs0: "fs (start linked) = linked"
    by (simp add: start_def)
  from r wf_fs_examples(3) locate_scripts(3) links_in_examples(2) lstat_a_b(1)
  show ?thesis
    by (simp only: fs0 joinpath_examples str simp_thms)
qed

section \<open>The source is already linked, and a second link is made\<close>

lemma fs_symlink_free:
  assumes "bad_string (path_str src) = None"
    and "locate NoFollow F tgt = Inr (tq, None)"
    and "map_of (entries F) tq = None"
  shows "fs_symlink F src tgt = Inr (F\<lparr>entries := entries F @ [(tq, Link src)]\<rparr>)"
  using assms by (simp add: fs_symlink_def update_absent)

lemma fs_symlink_occupied:
  assumes "locate NoFollow F tgt = Inr (tq, Some nd)"
  shows "fs_symlink F src tgt =
     Inl (if CHR 0x00 \<in> set (path_str src) then ValueError ''embedded null byte''
          else OSError (if PATH_MAX \<le> length (path_str src) then ENAMETOOLONG else EEXIST)
                 (path_str src) (Some (path_str tgt)))"
  using assms by (simp add: fs_symlink_def bad_string_def)

text \<open>Two links with one target in one directory lead to the same place.\<close>

lemma locate_through_link:
  assumes dir: "locate Follow F sp = Inr (D, Some Directory)"
    and sp: "short_relative sp"
    and n: "valid_name n"
    and link: "map_of (entries F) (D @ [n]) = Some (Link t)"
  shows "\<exists>m. walk Follow symlink_limit (entries F) (cwd F) (comps sp) = Inr (D, Some Directory, m)
           \<and> locate Follow F (sp @ [n]) =
               (case (case m of
                        0 \<Rightarrow> Inl ELOOP
                      | Suc k \<Rightarrow> walk Follow k (entries F) (if is_absolute t then [] else D)
                                  (comps t)) of
                  Inl e \<Rightarrow> Inl (OSError e (path_str (sp @ [n])) None)
                | Inr (q, nd, k) \<Rightarrow> Inr (q, nd))"
proof -
  from locate_directoryD(2) [OF dir] sp obtain m where
    m: "walk Follow symlink_limit (entries F) (cwd F) (comps sp) = Inr (D, Some Directory, m)"
    by (auto simp: short_relative_def)
  have ne: "sp \<noteq> []" and rel: "\<not> is_absolute sp"
    using sp by (simp_all add: short_relative_def)
  have "walk Follow symlink_limit (entries F) (cwd F) (comps sp @ [n])
      = walk Follow m (entries F) D [n]"
    by (simp add: walk_append m del: walk.simps)
  also have "\<dots> = (case m of
                     0 \<Rightarrow> Inl ELOOP
                   | Suc k \<Rightarrow> walk Follow k (entries F) (if is_absolute t then [] else D)
                               (comps t))"
    using n link by (simp add: valid_name_def split: nat.splits)
  finally have "locate Follow F (sp @ [n]) =
               (case (case m of
                        0 \<Rightarrow> Inl ELOOP
                      | Suc k \<Rightarrow> walk Follow k (entries F) (if is_absolute t then [] else D)
                                  (comps t)) of
                  Inl e \<Rightarrow> Inl (OSError e (path_str (sp @ [n])) None)
                | Inr (q, nd, k) \<Rightarrow> Inr (q, nd))"
    using rel by (simp add: locate_def bad_string_child [OF sp n] is_absolute_snoc [OF ne]
        comps_snoc [OF ne] del: walk.simps)
  with m show ?thesis by blast
qed

lemma locate_links_alike:
  assumes dir: "locate Follow F sp = Inr (D, Some Directory)"
    and sp: "short_relative sp"
    and n: "valid_name n" "valid_name n'"
    and link: "map_of (entries F) (D @ [n]) = Some (Link t)"
      "map_of (entries F) (D @ [n']) = Some (Link t)"
  shows "(locate Follow F (sp @ [n]) = Inr x) = (locate Follow F (sp @ [n']) = Inr x)"
proof -
  from locate_through_link [OF dir sp n(1) link(1)]
    locate_through_link [OF dir sp n(2) link(2)]
  obtain m where
    a: "locate Follow F (sp @ [n]) =
               (case (case m of
                        0 \<Rightarrow> Inl ELOOP
                      | Suc k \<Rightarrow> walk Follow k (entries F) (if is_absolute t then [] else D)
                                  (comps t)) of
                  Inl e \<Rightarrow> Inl (OSError e (path_str (sp @ [n])) None)
                | Inr (q, nd, k) \<Rightarrow> Inr (q, nd))"
    and b: "locate Follow F (sp @ [n']) =
               (case (case m of
                        0 \<Rightarrow> Inl ELOOP
                      | Suc k \<Rightarrow> walk Follow k (entries F) (if is_absolute t then [] else D)
                                  (comps t)) of
                  Inl e \<Rightarrow> Inl (OSError e (path_str (sp @ [n'])) None)
                | Inr (q, nd, k) \<Rightarrow> Inr (q, nd))"
    by auto
  show ?thesis
    unfolding a b by (simp split: sum.splits)
qed

text \<open>
  C5.  The scripts directory is there (at the location \<open>D\<close>), a symbolic link in it points at
  the source, nothing is at the target path, \<open>force_rename_existing\<close> is not set, and the
  display name is one file name: the call succeeds, one entry is added to the file system, a
  link to the source under the display name in the directory, and the old link stays; both
  paths are links to the source and lead to the same place; and a warning is logged for the
  old link (one for each link to the source, after the debug line).
\<close>

theorem install_script_adds_second_link:
  assumes c: "has_install_script c"
    and wf: "wf_fs (fs w)"
    and sp: "scripts_path (new c) = Some sp"
    and dir: "locate Follow (fs w) sp = Inr (D, Some Directory)"
    and dn: "display_name options = Some dn"
    and name: "valid_name dn"
    and noforce: "\<not> force_rename_existing options"
    and old: "old \<in> set (links_in (fs w) D src)"
    and free: "lstat (fs w) (joinpath sp dn)
             = Inl (OSError ENOENT (path_str (joinpath sp dn)) None)"
  shows "fst (install_script (new c) src options w) = Inr ()
    \<and> fs (snd (install_script (new c) src options w))
        = (fs w)\<lparr>entries := entries (fs w) @ [(D @ [dn], Link src)]\<rparr>
    \<and> old \<noteq> D @ [dn]
    \<and> lstat (fs (snd (install_script (new c) src options w))) (sp @ [last old])
        = Inr (Link src)
    \<and> lstat (fs (snd (install_script (new c) src options w))) (joinpath sp dn)
        = Inr (Link src)
    \<and> readlink (fs (snd (install_script (new c) src options w))) (sp @ [last old]) = Inr src
    \<and> readlink (fs (snd (install_script (new c) src options w))) (joinpath sp dn) = Inr src
    \<and> (locate Follow (fs (snd (install_script (new c) src options w))) (sp @ [last old]) = Inr x)
        = (locate Follow (fs (snd (install_script (new c) src options w))) (joinpath sp dn)
            = Inr x)
    \<and> (WARNING, already_linked_msg (sp @ [last old]))
        \<in> set (logged (snd (install_script (new c) src options w)))
    \<and> logged (snd (install_script (new c) src options w))
        = logged w @ (DEBUG, ''Target path: '' @ path_str (joinpath sp dn))
            # map (\<lambda>q. (WARNING, already_linked_msg (sp @ [last q])))
                (links_in (fs w) D src)"
proof -
  let ?tgt = "joinpath sp dn"
  let ?tq = "D @ [dn]"
  let ?E = "entries (fs w)"
  let ?F' = "(fs w)\<lparr>entries := ?E @ [(?tq, Link src)]\<rparr>"
  note short = check_scripts_support_passes(2) [OF c sp dir]
  note tgt = target_free [OF dir short name free]
  have tgt_eq: "?tgt = sp @ [dn]"
    by (rule joinpath_valid_name [OF name])
  have listed: "old \<in> set (listing (fs w) D)" and oldl: "map_of ?E old = Some (Link src)"
    using links_inD [OF old] by simp_all
  with tgt(1) have ne: "old \<noteq> ?tq" by auto
  have old_eq: "old = D @ [last old]"
    using listingD [OF listed] by simp
  note old_name = listing_named [OF wf listed]
  have good: "bad_string (path_str src) = None"
    by (rule link_stored [OF wf oldl])
  have sym: "fs_symlink (fs w) src ?tgt = Inr ?F'"
    by (rule fs_symlink_free [OF good tgt(2) tgt(1)])
  have no_rename: "\<not> (force_rename_existing options \<and> links_in (fs w) D src \<noteq> [])"
    using noforce by simp
  note r = install_script_linking [OF c wf sp dir dn tgt(3) no_rename,
      unfolded sym sum.case]
  have dir': "locate Follow ?F' sp = Inr (D, Some Directory)"
    by (rule locate_add_entry [OF tgt(1) dir])
  have m1: "map_of (entries ?F') (D @ [last old]) = Some (Link src)"
    using oldl old_eq by (simp add: map_of_snoc del: map_of_append)
  have m2: "map_of (entries ?F') ?tq = Some (Link src)"
    using tgt(1) by (simp add: map_of_snoc del: map_of_append)
  from locate_child [OF dir' short old_name] m1
  have l1: "locate NoFollow ?F' (sp @ [last old]) = Inr (D @ [last old], Some (Link src))"
    by simp
  from locate_child [OF dir' short name] m2
  have l2: "locate NoFollow ?F' (sp @ [dn]) = Inr (?tq, Some (Link src))"
    by simp
  have alike: "(locate Follow ?F' (sp @ [last old]) = Inr x)
      = (locate Follow ?F' (sp @ [dn]) = Inr x)"
    by (rule locate_links_alike [OF dir' short old_name name m1 m2])
  have warned: "(WARNING, already_linked_msg (sp @ [last old]))
      \<in> set (map (\<lambda>q. (WARNING, already_linked_msg (sp @ [last q]))) (links_in (fs w) D src))"
    using old by force
  show ?thesis
    unfolding r tgt_eq using ne l1 l2 alike warned
    by (simp add: lstat_def readlink_def)
qed

lemma linked_with_Batch_Rename:
  "linked\<lparr>entries := entries linked @ [(scripts_dir @ [''Batch Rename''], Link rename_sh)]\<rparr>
     = twice_linked"
  by (simp add: twice_linked_def example_defs)

lemma stat_twice_linked:
  "stat twice_linked (nemo_scripts @ [''Old Name'']) = Inr (Regular ''#!/bin/sh'')"
  "stat twice_linked (nemo_scripts @ [''Batch Rename'']) = Inr (Regular ''#!/bin/sh'')"
  by (simp_all add: stat_def resolve_defs twice_linked_def example_defs)

theorem install_script_second_link_Batch_Rename:
  "has_install_script Nemo \<and> wf_fs (fs (start linked))
   \<and> locate Follow (fs (start linked)) nemo_scripts = Inr (scripts_dir, Some Directory)
   \<and> valid_name ''Batch Rename''
   \<and> old_link \<in> set (links_in (fs (start linked)) scripts_dir rename_sh)
   \<and> lstat (fs (start linked)) (joinpath nemo_scripts ''Batch Rename'')
       = Inl (OSError ENOENT ''.local/share/nemo/scripts/Batch Rename'' None)
   \<and> fst (install_script (new Nemo) rename_sh (plain ''Batch Rename'') (start linked)) = Inr ()
   \<and> fs (snd (install_script (new Nemo) rename_sh (plain ''Batch Rename'') (start linked)))
       = twice_linked
   \<and> readlink twice_linked (nemo_scripts @ [''Old Name'']) = Inr rename_sh
   \<and> readlink twice_linked (nemo_scripts @ [''Batch Rename'']) = Inr rename_sh
   \<and> stat twice_linked (nemo_scripts @ [''Old Name'']) = Inr (Regular ''#!/bin/sh'')
   \<and> stat twice_linked (nemo_scripts @ [''Batch Rename'']) = Inr (Regular ''#!/bin/sh'')
   \<and> logged (snd (install_script (new Nemo) rename_sh (plain ''Batch Rename'') (start linked)))
       = [(DEBUG, ''Target path: .local/share/nemo/scripts/Batch Rename''),
          (WARNING, ''Found the source script already linked as .local/share/nemo/scripts/Old Name, but ignoring the situation.'')]"
proof -
  have wf: "wf_fs (fs (start linked))"
    by (simp add: start_def wf_fs_examples)
  have dir: "locate Follow (fs (start linked)) nemo_scripts = Inr (scripts_dir, Some Directory)"
    by (simp add: start_def locate_scripts)
  have dn: "display_name (plain ''Batch Rename'') = Some ''Batch Rename''"
    by (simp add: plain_def)
  have noforce: "\<not> force_rename_existing (plain ''Batch Rename'')"
    by (simp add: plain_def)
  have links: "links_in (fs (start linked)) scripts_dir rename_sh = [old_link]"
    by (simp add: start_def links_in_examples)
  then have old: "old_link \<in> set (links_in (fs (start linked)) scripts_dir rename_sh)"
    by simp
  have free: "lstat (fs (start linked)) (joinpath nemo_scripts ''Batch Rename'')
      = Inl (OSError ENOENT (path_str (joinpath nemo_scripts ''Batch Rename'')) None)"
    by (simp add: start_def joinpath_examples lstat_Batch_Rename path_str_examples)
  note t = install_script_adds_second_link
    [OF has_install_script_Nemo wf scripts_path_Nemo dir dn valid_name_Batch_Rename noforce
       old free]
  have fs0: "fs (start linked) = linked"
    by (simp add: start_def)
  have last_old: "last old_link = ''Old Name''"
    by (simp add: old_link_def)
  from t have r: "fst (install_script (new Nemo) rename_sh (plain ''Batch Rename'')
        (start linked)) = Inr ()"
    "fs (snd (install_script (new Nemo) rename_sh (plain ''Batch Rename'') (start linked)))
        = twice_linked"
    unfolding fs0 linked_with_Batch_Rename by blast+
  from t have "readlink (fs (snd (install_script (new Nemo) rename_sh (plain ''Batch Rename'')
        (start linked)))) (nemo_scripts @ [last old_link]) = Inr rename_sh"
    and "readlink (fs (snd (install_script (new Nemo) rename_sh (plain ''Batch Rename'')
        (start linked)))) (joinpath nemo_scripts ''Batch Rename'') = Inr rename_sh"
    by blast+
  then have rl: "readlink twice_linked (nemo_scripts @ [''Old Name'']) = Inr rename_sh"
    "readlink twice_linked (nemo_scripts @ [''Batch Rename'']) = Inr rename_sh"
    unfolding r(2) last_old joinpath_examples by simp_all
  have msgs: "already_linked_msg (nemo_scripts @ [''Old Name'']) = ''Found the source script already linked as .local/share/nemo/scripts/Old Name, but ignoring the situation.''"
    by (simp add: already_linked_msg_def path_str_examples)
  from t have "logged (snd (install_script (new Nemo) rename_sh (plain ''Batch Rename'')
      (start linked)))
      = logged (start linked)
          @ (DEBUG, ''Target path: '' @ path_str (joinpath nemo_scripts ''Batch Rename''))
          # map (\<lambda>q. (WARNING, already_linked_msg (nemo_scripts @ [last q])))
              (links_in (fs (start linked)) scripts_dir rename_sh)"
    by blast
  then have lg: "logged (snd (install_script (new Nemo) rename_sh (plain ''Batch Rename'')
      (start linked)))
       = [(DEBUG, ''Target path: .local/share/nemo/scripts/Batch Rename''),
          (WARNING, ''Found the source script already linked as .local/share/nemo/scripts/Old Name, but ignoring the situation.'')]"
    unfolding links
    by (simp add: last_old msgs joinpath_examples path_str_examples start_def)
  from free have free': "lstat (fs (start linked)) (joinpath nemo_scripts ''Batch Rename'')
       = Inl (OSError ENOENT ''.local/share/nemo/scripts/Batch Rename'' None)"
    by (simp only: joinpath_examples path_str_examples)
  from has_install_script_Nemo wf dir valid_name_Batch_Rename old free' r rl stat_twice_linked lg
  show ?thesis
    by (simp only: simp_thms)
qed

text \<open>
  The display name \<^verbatim>\<open>a/b\<close>, with the script linked as \<^verbatim>\<open>Old Name\<close> and no directory \<^verbatim>\<open>a\<close>
  in the scripts directory: nothing is at the target path, the warning is logged, and
  \<^verbatim>\<open>os.symlink\<close> fails with \<open>ENOENT\<close>; no link is made.
\<close>

theorem install_script_link_into_missing_directory:
  "wf_fs linked
   \<and> locate Follow linked nemo_scripts = Inr (scripts_dir, Some Directory)
   \<and> old_link \<in> set (links_in linked scripts_dir rename_sh)
   \<and> lstat linked (joinpath nemo_scripts ''a/b'')
       = Inl (OSError ENOENT (path_str (joinpath nemo_scripts ''a/b'')) None)
   \<and> fst (install_script (new Nemo) rename_sh (plain ''a/b'') (start linked))
       = Inl (OSError ENOENT ''/home/u/tools/rename.sh''
                (Some ''.local/share/nemo/scripts/a/b''))
   \<and> fs (snd (install_script (new Nemo) rename_sh (plain ''a/b'') (start linked))) = linked"
proof -
  have wf: "wf_fs (fs (start linked))"
    by (simp add: start_def wf_fs_examples)
  have dir: "locate Follow (fs (start linked)) nemo_scripts = Inr (scripts_dir, Some Directory)"
    by (simp add: start_def locate_scripts)
  have dn: "display_name (plain ''a/b'') = Some ''a/b''"
    by (simp add: plain_def)
  have no_rename: "\<not> (force_rename_existing (plain ''a/b'')
      \<and> links_in (fs (start linked)) scripts_dir rename_sh \<noteq> [])"
    by (simp add: plain_def)
  have free: "exists (fs (start linked)) (joinpath nemo_scripts ''a/b'') = Inr False"
    by (simp add: start_def joinpath_examples lstat_a_b)
  have str: "path_str (nemo_scripts @ [''a'', ''b'']) = ''.local/share/nemo/scripts/a/b''"
    by (simp add: path_str_def is_absolute_def nemo_scripts_def)
  have "fs_symlink linked rename_sh (nemo_scripts @ [''a'', ''b''])
      = Inl (OSError ENOENT ''/home/u/tools/rename.sh''
               (Some ''.local/share/nemo/scripts/a/b''))"
    by (simp add: fs_symlink_def resolve_defs example_defs)
  then have sym: "fs_symlink (fs (start linked)) rename_sh (joinpath nemo_scripts ''a/b'')
      = Inl (OSError ENOENT ''/home/u/tools/rename.sh''
               (Some ''.local/share/nemo/scripts/a/b''))"
    by (simp add: start_def joinpath_examples)
  note r = install_script_linking
    [OF has_install_script_Nemo wf scripts_path_Nemo dir dn free no_rename,
     unfolded sym sum.case]
  have fs0: "fs (start linked) = linked"
    by (simp add: start_def)
  have old: "old_link \<in> set (links_in linked scripts_dir rename_sh)"
    by (simp add: links_in_examples)
  from r(1,2) wf_fs_examples(3) locate_scripts(3) old lstat_a_b(1)
  show ?thesis
    by (simp only: fs0 joinpath_examples str simp_thms)
qed

section \<open>A dangling link at the target path\<close>



lemma exists_Batch_Rename:
  "exists home (nemo_scripts @ [''Batch Rename'']) = Inr False"
  "exists home_script (nemo_scripts @ [''Batch Rename'']) = Inr False"
  "exists relinked (nemo_scripts @ [''Batch Rename'']) = Inr True"
  "locate Follow relinked nemo_scripts = Inr (scripts_dir, Some Directory)"
  by (simp_all add: exists_def stat_def ignored_def resolve_defs example_defs)

lemma locate_dangling_target:
  "locate NoFollow dangling (nemo_scripts @ [''Batch Rename''])
     = Inr (batch_rename, Some (Link rename_sh))"
  "exists dangling (nemo_scripts @ [''Batch Rename'']) = Inr False"
  "locate NoFollow linked_and_dangling (nemo_scripts @ [''Batch Rename''])
     = Inr (batch_rename, Some (Link [''/'', ''gone'']))"
  "exists linked_and_dangling (nemo_scripts @ [''Batch Rename'']) = Inr False"
  by (simp_all add: exists_def stat_def ignored_def resolve_defs example_defs)




section \<open>Installing a script twice\<close>

text \<open>Something that \<^verbatim>\<open>exists\<close> can see is at the target path: the call fails, nothing changes.\<close>

lemma install_script_target_exists:
  assumes c: "has_install_script c"
    and sp: "scripts_path (new c) = Some sp"
    and dir: "locate Follow (fs w) sp = Inr (D, Some Directory)"
    and dn: "display_name options = Some dn"
    and ex: "exists (fs w) (joinpath sp dn) = Inr True"
  shows "fst (install_script (new c) src options w)
        = Inl (ValueError (already_exists_msg (joinpath sp dn)))"
    and "fs (snd (install_script (new c) src options w)) = fs w"
  using c dn ex locate_is_dir [OF dir]
  by (simp_all add: install_script_def check_scripts_support_passes(1) [OF c sp dir] sp
      install_script_body_def path_is_dir_def path_exists_def Let_def)

text \<open>
  The same display name twice, no flag set, for a script that is there: the second call
  fails with the error that the target exists.
\<close>

lemma install_script_twice_target_exists:
  "fst (install_script (new Nemo) rename_sh (plain ''Batch Rename'') (start home_script)) = Inr ()"
  "fst (install_script (new Nemo) rename_sh (plain ''Batch Rename'')
         (snd (install_script (new Nemo) rename_sh (plain ''Batch Rename'') (start home_script))))
     = Inl (ValueError ''.local/share/nemo/scripts/Batch Rename already exists!'')"
proof -
  let ?w1 = "snd (install_script (new Nemo) rename_sh (plain ''Batch Rename'') (start home_script))"
  have wf: "wf_fs (fs (start home_script))"
    by (simp add: start_def wf_fs_examples)
  have dir: "locate Follow (fs (start home_script)) nemo_scripts
      = Inr (scripts_dir, Some Directory)"
    by (simp add: start_def locate_scripts)
  have dn: "display_name (plain ''Batch Rename'') = Some ''Batch Rename''"
    by (simp add: plain_def)
  have no_rename: "\<not> (force_rename_existing (plain ''Batch Rename'')
      \<and> links_in (fs (start home_script)) scripts_dir rename_sh \<noteq> [])"
    by (simp add: plain_def)
  have free: "exists (fs (start home_script)) (joinpath nemo_scripts ''Batch Rename'') = Inr False"
    by (simp add: start_def joinpath_examples exists_Batch_Rename)
  have "fs_symlink home_script rename_sh (nemo_scripts @ [''Batch Rename'']) = Inr relinked"
    by (simp add: fs_symlink_def resolve_defs example_defs)
  then have sym: "fs_symlink (fs (start home_script)) rename_sh
      (joinpath nemo_scripts ''Batch Rename'') = Inr relinked"
    by (simp add: start_def joinpath_examples)
  note first = install_script_linking(1,2)
    [OF has_install_script_Nemo wf scripts_path_Nemo dir dn free no_rename,
     unfolded sym sum.case]
  show "fst (install_script (new Nemo) rename_sh (plain ''Batch Rename'') (start home_script))
      = Inr ()"
    by (rule first(1))
  have dir1: "locate Follow (fs ?w1) nemo_scripts = Inr (scripts_dir, Some Directory)"
    unfolding first(2) by (rule exists_Batch_Rename)
  have ex1: "exists (fs ?w1) (joinpath nemo_scripts ''Batch Rename'') = Inr True"
    unfolding first(2) joinpath_examples by (rule exists_Batch_Rename)
  from install_script_target_exists(1)
    [OF has_install_script_Nemo scripts_path_Nemo dir1 dn ex1, of rename_sh]
  show "fst (install_script (new Nemo) rename_sh (plain ''Batch Rename'') ?w1)
     = Inl (ValueError ''.local/share/nemo/scripts/Batch Rename already exists!'')"
    by (simp add: already_exists_msg_def joinpath_examples path_str_examples)
qed

lemma home_with_Batch_Rename:
  "fs_symlink home rename_sh (nemo_scripts @ [''Batch Rename'']) = Inr dangling"
  by (simp add: fs_symlink_def resolve_defs example_defs)

text \<open>
  C4.  The same display name twice, no flag set, for a script that is not there.  The first
  call makes the link.  In the second call \<^verbatim>\<open>exists\<close> follows the link, finds nothing, and
  the error that the target exists is not raised: the call fails in \<^verbatim>\<open>os.symlink\<close>, with the
  \<^verbatim>\<open>OSError\<close> for \<open>EEXIST\<close>, and creates nothing.
\<close>

theorem install_script_twice_missing_source:
  "fst (install_script (new Nemo) rename_sh (plain ''Batch Rename'') (start home)) = Inr ()
   \<and> fs (snd (install_script (new Nemo) rename_sh (plain ''Batch Rename'') (start home)))
       = dangling
   \<and> fst (install_script (new Nemo) rename_sh (plain ''Batch Rename'')
            (snd (install_script (new Nemo) rename_sh (plain ''Batch Rename'') (start home))))
       = Inl (OSError EEXIST ''/home/u/tools/rename.sh''
                (Some ''.local/share/nemo/scripts/Batch Rename''))
   \<and> fs (snd (install_script (new Nemo) rename_sh (plain ''Batch Rename'')
            (snd (install_script (new Nemo) rename_sh (plain ''Batch Rename'') (start home)))))
       = dangling"
proof -
  let ?w1 = "snd (install_script (new Nemo) rename_sh (plain ''Batch Rename'') (start home))"
  have wf: "wf_fs (fs (start home))"
    by (simp add: start_def wf_fs_examples)
  have dir: "locate Follow (fs (start home)) nemo_scripts = Inr (scripts_dir, Some Directory)"
    by (simp add: start_def locate_scripts)
  have dn: "display_name (plain ''Batch Rename'') = Some ''Batch Rename''"
    by (simp add: plain_def)
  have free: "exists (fs (start home)) (joinpath nemo_scripts ''Batch Rename'') = Inr False"
    by (simp add: start_def joinpath_examples exists_Batch_Rename)
  have sym: "fs_symlink (fs (start home)) rename_sh (joinpath nemo_scripts ''Batch Rename'')
      = Inr dangling"
    by (simp add: start_def joinpath_examples home_with_Batch_Rename)
  have no_rename: "\<not> (force_rename_existing (plain ''Batch Rename'')
      \<and> links_in (fs (start home)) scripts_dir rename_sh \<noteq> [])"
    by (simp add: plain_def)
  note first = install_script_linking(1,2)
    [OF has_install_script_Nemo wf scripts_path_Nemo dir dn free no_rename,
     unfolded sym sum.case]
  have wf1: "wf_fs (fs ?w1)"
    and dir1: "locate Follow (fs ?w1) nemo_scripts = Inr (scripts_dir, Some Directory)"
    and dang1: "exists (fs ?w1) (joinpath nemo_scripts ''Batch Rename'') = Inr False"
    and link1: "locate NoFollow (fs ?w1) (joinpath nemo_scripts ''Batch Rename'')
        = Inr (batch_rename, Some (Link rename_sh))"
    unfolding first(2) joinpath_examples
    by (rule wf_fs_examples locate_scripts locate_dangling_target)+
  have no_rename1: "\<not> (force_rename_existing (plain ''Batch Rename'')
      \<and> links_in (fs ?w1) scripts_dir rename_sh \<noteq> [])"
    by (simp add: plain_def)
  have sym1: "fs_symlink (fs ?w1) rename_sh (joinpath nemo_scripts ''Batch Rename'')
      = Inl (OSError EEXIST ''/home/u/tools/rename.sh''
               (Some ''.local/share/nemo/scripts/Batch Rename''))"
    unfolding fs_symlink_occupied [OF link1]
    by (simp add: joinpath_examples path_str_examples PATH_MAX_def)
  note second = install_script_linking(1,2)
    [OF has_install_script_Nemo wf1 scripts_path_Nemo dir1 dn dang1 no_rename1,
     unfolded sym1 sum.case]
  from first second show ?thesis
    by (simp only: simp_thms)
qed

end
